theory Spec2Isabelle
  imports Complex_Main "HOL-Library.Word" "HOL-Library.List_Lexorder" "HOL-Library.Multiset"
begin

section \<open>JavaScript strings and values\<close>

text \<open>
  A JavaScript string is a sequence of UTF-16 code units; \<open>length\<close>, the regular
  expressions without the \<open>u\<close> flag and \<open>startsWith\<close> all work on code units.
  \<open>js\<close> turns an ASCII literal into such a sequence.
\<close>

type_synonym code_unit = "16 word"
type_synonym jsstring = "code_unit list"

definition js :: "string \<Rightarrow> jsstring" where
  "js s = map of_char s"

text \<open>
  The values that reach the code: \<open>undefined\<close>, \<open>null\<close> and what \<open>JSON.parse\<close>
  produces. A number is carried by its mathematical value (no JSON text denotes NaN); an
  object is the list of its own entries in the order of \<open>Object.entries\<close>.
\<close>

datatype jsval =
    JUndefined
  | JNull
  | JBool bool
  | JNum rat
  | JStr jsstring
  | JArr "jsval list"
  | JObj "(jsstring \<times> jsval) list"

text \<open>Truthiness, as tested by \<open>||\<close>, \<open>? :\<close> and \<open>!\<close>.\<close>

fun truthy :: "jsval \<Rightarrow> bool" where
  "truthy JUndefined = False"
| "truthy JNull = False"
| "truthy (JBool b) = b"
| "truthy (JNum n) = (n \<noteq> 0)"
| "truthy (JStr s) = (s \<noteq> [])"
| "truthy (JArr _) = True"
| "truthy (JObj _) = True"

text \<open>\<open>a || b\<close>\<close>

definition or_js :: "jsval \<Rightarrow> jsval \<Rightarrow> jsval" where
  "or_js a b = (if truthy a then a else b)"

text \<open>
  \<open>v?.topic\<close>: \<open>undefined\<close> on \<open>null\<close> and \<open>undefined\<close>; on an object its own entry
  of that name, else \<open>undefined\<close> (no prototype of a parsed value has a property
  \<open>topic\<close>); \<open>undefined\<close> on every primitive and on arrays.
\<close>

fun opt_prop :: "jsval \<Rightarrow> jsstring \<Rightarrow> jsval" where
  "opt_prop (JObj entries) k = (case map_of entries k of Some v \<Rightarrow> v | None \<Rightarrow> JUndefined)"
| "opt_prop _ k = JUndefined"

section \<open>Session identity: \<open>parseSessionId\<close>\<close>

text \<open>
  The source matches \<^verbatim>\<open>/^ANL-(.+)-(\d{4}-\d{2}-\d{2})$/\<close>. The model runs that
  expression the way a backtracking matcher does: the literal prefix, then the greedy
  \<open>.+\<close> over the longest run of code units that are not line terminators, then the
  rest of the pattern; whenever the rest fails, \<open>.+\<close> gives one code unit back, as long
  as it keeps one.
\<close>

definition isLineTerminator :: "code_unit \<Rightarrow> bool" where
  "isLineTerminator c = (c = 0x0A \<or> c = 0x0D \<or> c = 0x2028 \<or> c = 0x2029)"

text \<open>\<open>\d\<close> without the \<open>u\<close> flag: the ten ASCII digits.\<close>

definition isDigit :: "code_unit \<Rightarrow> bool" where
  "isDigit c = (0x30 \<le> c \<and> c \<le> 0x39)"

definition hyphen :: code_unit where
  "hyphen = 0x2D"

definition space :: code_unit where
  "space = 0x20"

text \<open>\<^verbatim>\<open>\d{4}-\d{2}-\d{2}\<close> against a whole string.\<close>

fun isDateToken :: "jsstring \<Rightarrow> bool" where
  "isDateToken [y1, y2, y3, y4, h1, m1, m2, h2, d1, d2] =
     (isDigit y1 \<and> isDigit y2 \<and> isDigit y3 \<and> isDigit y4 \<and> h1 = hyphen \<and>
      isDigit m1 \<and> isDigit m2 \<and> h2 = hyphen \<and> isDigit d1 \<and> isDigit d2)"
| "isDateToken _ = False"

text \<open>\<^verbatim>\<open>-(\d{4}-\d{2}-\d{2})$\<close> against the rest of the input; the result is group 2.\<close>

fun matchDateTail :: "jsstring \<Rightarrow> jsstring option" where
  "matchDateTail [] = None"
| "matchDateTail (c # d) = (if c = hyphen \<and> isDateToken d then Some d else None)"

text \<open>
  The backtracking of \<open>.+\<close>. The first argument is what \<open>.+\<close> currently holds, last
  code unit first; the second is the input after it.
\<close>

fun giveBack :: "jsstring \<Rightarrow> jsstring \<Rightarrow> (jsstring \<times> jsstring) option" where
  "giveBack [] rest = None"
| "giveBack (c # held) rest =
     (case matchDateTail rest of
        Some d \<Rightarrow> Some (rev (c # held), d)
      | None \<Rightarrow> giveBack held (c # rest))"

fun stripPrefix :: "jsstring \<Rightarrow> jsstring \<Rightarrow> jsstring option" where
  "stripPrefix [] s = Some s"
| "stripPrefix (p # ps) [] = None"
| "stripPrefix (p # ps) (c # cs) = (if p = c then stripPrefix ps cs else None)"

record SessionIdentity =
  slug :: jsstring
  date :: jsstring

definition parseSessionId :: "jsstring \<Rightarrow> SessionIdentity option" where
  "parseSessionId folderName =
     (case stripPrefix (js ''ANL-'') folderName of
        None \<Rightarrow> None
      | Some rest \<Rightarrow>
          (case giveBack (rev (takeWhile (\<lambda>c. \<not> isLineTerminator c) rest))
                         (dropWhile (\<lambda>c. \<not> isLineTerminator c) rest) of
             None \<Rightarrow> None
           | Some (s, d) \<Rightarrow> Some \<lparr>slug = s, date = d\<rparr>))"

text \<open>
  The naming convention in the words of the specification: the literal prefix, a
  separator, a non-empty slug, a separator, and a date token at the very end.
\<close>

definition namedAsSession :: "jsstring \<Rightarrow> jsstring \<Rightarrow> jsstring \<Rightarrow> bool" where
  "namedAsSession folderName s d =
     (folderName = js ''ANL'' @ [hyphen] @ s @ [hyphen] @ d \<and> s \<noteq> [] \<and> isDateToken d)"

section \<open>Exceptions and the platform\<close>

text \<open>
  A call that may throw, and an awaited promise that may reject, yield \<open>Inl\<close> of the
  error or \<open>Inr\<close> of the value. \<open>await\<close> passes the value on and lets the error
  escape; \<open>try_catch\<close> is \<^verbatim>\<open>try { ... } catch { ... }\<close>.
\<close>

datatype js_error = Error (message: jsstring)

type_synonym 'a outcome = "js_error + 'a"

definition await :: "'a outcome \<Rightarrow> ('a \<Rightarrow> 'b outcome) \<Rightarrow> 'b outcome" where
  "await m k = (case m of Inl e \<Rightarrow> Inl e | Inr v \<Rightarrow> k v)"

definition try_catch :: "'a outcome \<Rightarrow> (js_error \<Rightarrow> 'a outcome) \<Rightarrow> 'a outcome" where
  "try_catch m handler = (case m of Inl e \<Rightarrow> handler e | Inr v \<Rightarrow> Inr v)"

text \<open>
  What the module imports and does not define: \<open>fs\<close>, \<open>fs/promises\<close>, \<open>path\<close>,
  \<open>JSON.parse\<close>, \<open>decodeURIComponent\<close> and \<open>resolvePath\<close> of the
  repository's path resolver. They are parameters of the model. One
  request is evaluated against one snapshot of the file system: the same call with the
  same path gives the same answer throughout. \<open>existsSync\<close> never throws; any of the
  others may.
\<close>

record Stats =
  isDirectory :: bool

record platform =
  existsSync :: "jsstring \<Rightarrow> bool"
  readFile :: "jsstring \<Rightarrow> jsstring outcome"
  stat :: "jsstring \<Rightarrow> Stats outcome"
  readdir :: "jsstring \<Rightarrow> jsstring list outcome"
  join :: "jsstring \<Rightarrow> jsstring \<Rightarrow> jsstring"
  JSON_parse :: "jsstring \<Rightarrow> jsval outcome"
  resolvePath :: "jsstring \<Rightarrow> jsstring outcome"
  decodeURIComponent :: "jsstring \<Rightarrow> jsstring outcome"

section \<open>Artifact reader\<close>

definition readJsonFile :: "platform \<Rightarrow> jsstring \<Rightarrow> jsval outcome" where
  "readJsonFile P filePath =
     try_catch
       (if \<not> existsSync P filePath then Inr JNull
        else await (readFile P filePath) (\<lambda>content. JSON_parse P content))
       (\<lambda>_. Inr JNull)"

definition readTextFile :: "platform \<Rightarrow> jsstring \<Rightarrow> jsstring option outcome" where
  "readTextFile P filePath =
     try_catch
       (if \<not> existsSync P filePath then Inr None
        else await (readFile P filePath) (\<lambda>content. Inr (Some content)))
       (\<lambda>_. Inr None)"

section \<open>Session repository\<close>

datatype session_status = in_progress | completed

record SessionCore =
  id' :: jsstring
  name :: jsstring
  topic :: jsval
  createdAt :: jsstring
  status :: session_status

record AnalysisSessionSummary = SessionCore +
  hasConclusions :: bool

record AnalysisSessionDetail = SessionCore +
  discussion :: "jsstring option"
  conclusions :: jsval
  explorations :: jsval
  perspectives :: jsval

text \<open>\<open>s.replace(/-/g, ' ')\<close>, and the same for any single code unit.\<close>

definition replaceAll :: "code_unit \<Rightarrow> code_unit \<Rightarrow> jsstring \<Rightarrow> jsstring" where
  "replaceAll old new s = map (\<lambda>c. if c = old then new else c) s"

text \<open>\<open>(conclusions?.topic as string) || parsed.slug.replace(/-/g, ' ')\<close>; the cast does
  nothing at run time.\<close>

definition deriveTopic :: "jsval \<Rightarrow> SessionIdentity \<Rightarrow> jsval" where
  "deriveTopic c parsed =
     or_js (opt_prop c (js ''topic'')) (JStr (replaceAll hyphen space (slug parsed)))"

definition getSessionSummary ::
  "platform \<Rightarrow> jsstring \<Rightarrow> jsstring \<Rightarrow> AnalysisSessionSummary option outcome" where
  "getSessionSummary P analysisDir folderName =
     (case parseSessionId folderName of
        None \<Rightarrow> Inr None
      | Some parsed \<Rightarrow>
          (let sessionPath = join P analysisDir folderName in
           await (stat P sessionPath) (\<lambda>folderStat.
             if \<not> isDirectory folderStat then Inr None
             else
               (let conclusionsPath = join P sessionPath (js ''conclusions.json'');
                    has = existsSync P conclusionsPath in
                await (if has then readJsonFile P conclusionsPath else Inr JNull) (\<lambda>c.
                  Inr (Some \<lparr>id' = folderName, name = folderName,
                             topic = deriveTopic c parsed,
                             createdAt = date parsed,
                             status = (if has then completed else in_progress),
                             hasConclusions = has\<rparr>))))))"

text \<open>
  \<open>Promise.all\<close> over the four reads: the array of their values, or the rejection of
  one of them.
\<close>

definition getSessionDetail ::
  "platform \<Rightarrow> jsstring \<Rightarrow> jsstring \<Rightarrow> AnalysisSessionDetail option outcome" where
  "getSessionDetail P analysisDir sessionId =
     (case parseSessionId sessionId of
        None \<Rightarrow> Inr None
      | Some parsed \<Rightarrow>
          (let sessionPath = join P analysisDir sessionId in
           if \<not> existsSync P sessionPath then Inr None
           else
             await (readTextFile P (join P sessionPath (js ''discussion.md''))) (\<lambda>d.
             await (readJsonFile P (join P sessionPath (js ''conclusions.json''))) (\<lambda>c.
             await (readJsonFile P (join P sessionPath (js ''explorations.json''))) (\<lambda>e.
             await (readJsonFile P (join P sessionPath (js ''perspectives.json''))) (\<lambda>p.
               Inr (Some \<lparr>id' = sessionId, name = sessionId,
                          topic = deriveTopic c parsed,
                          createdAt = date parsed,
                          status = (if truthy c then completed else in_progress),
                          discussion = d, conclusions = c,
                          explorations = e, perspectives = p\<rparr>)))))))"

text \<open>The \<open>for\<close> loop of the list route; the last argument is \<open>sessions\<close> so far.\<close>

fun collectSessions ::
  "platform \<Rightarrow> jsstring \<Rightarrow> jsstring list \<Rightarrow> AnalysisSessionSummary list \<Rightarrow>
     AnalysisSessionSummary list outcome" where
  "collectSessions P analysisDir [] sessions = Inr sessions"
| "collectSessions P analysisDir (folder # folders) sessions =
     await (getSessionSummary P analysisDir folder) (\<lambda>summary.
       collectSessions P analysisDir folders
         (case summary of None \<Rightarrow> sessions | Some s \<Rightarrow> sessions @ [s]))"

text \<open>
  \<open>a.localeCompare(b)\<close> is only ever applied to two \<open>createdAt\<close> strings, which are
  date tokens: ASCII digits with hyphens at the same places. On those the collation
  order is the order of the code units, which the model uses.
\<close>

definition localeCompare :: "jsstring \<Rightarrow> jsstring \<Rightarrow> int" where
  "localeCompare a b = (if a < b then - 1 else if a = b then 0 else 1)"

text \<open>
  \<open>Array.prototype.sort\<close> with a comparator is a stable sort: an element stays in
  front of a later one unless the comparator puts it strictly behind. Insertion from the
  right is such a sort.
\<close>

fun insertBy :: "('a \<Rightarrow> 'a \<Rightarrow> int) \<Rightarrow> 'a \<Rightarrow> 'a list \<Rightarrow> 'a list" where
  "insertBy cmp x [] = [x]"
| "insertBy cmp x (y # ys) = (if cmp x y \<le> 0 then x # y # ys else y # insertBy cmp x ys)"

fun sortBy :: "('a \<Rightarrow> 'a \<Rightarrow> int) \<Rightarrow> 'a list \<Rightarrow> 'a list" where
  "sortBy cmp [] = []"
| "sortBy cmp (x # xs) = insertBy cmp x (sortBy cmp xs)"

text \<open>\<open>(a, b) => b.createdAt.localeCompare(a.createdAt)\<close>\<close>

definition byDateDescending :: "AnalysisSessionSummary \<Rightarrow> AnalysisSessionSummary \<Rightarrow> int" where
  "byDateDescending a b = localeCompare (createdAt b) (createdAt a)"

section \<open>The route handler\<close>

datatype envelope =
    SuccessList (listData: "AnalysisSessionSummary list") (total: nat)
  | SuccessDetail (detailData: AnalysisSessionDetail)
  | Failure (error: jsstring)

datatype response = Response (statusCode: nat) (sent: envelope)

record RouteContext =
  pathname :: jsstring
  reqMethod :: jsstring
  projectPathParam :: "jsstring option"
  initialPath :: jsstring

text \<open>\<open>ctx.url.searchParams.get('projectPath') || initialPath\<close>\<close>

definition projectPathOf :: "RouteContext \<Rightarrow> jsstring" where
  "projectPathOf ctx =
     (case projectPathParam ctx of
        None \<Rightarrow> initialPath ctx
      | Some p \<Rightarrow> if p \<noteq> [] then p else initialPath ctx)"

definition analysisDirOf :: "platform \<Rightarrow> jsstring \<Rightarrow> jsstring" where
  "analysisDirOf P resolvedPath = join P (join P resolvedPath (js ''.workflow'')) (js ''.analysis'')"

text \<open>The list route from the existence test of the analysis directory on.\<close>

definition listSessions :: "platform \<Rightarrow> jsstring \<Rightarrow> response outcome" where
  "listSessions P analysisDir =
     (if \<not> existsSync P analysisDir then Inr (Response 200 (SuccessList [] 0))
      else
        await (readdir P analysisDir) (\<lambda>folders.
        await (collectSessions P analysisDir folders []) (\<lambda>sessions.
          (let sessions' = sortBy byDateDescending sessions
           in Inr (Response 200 (SuccessList sessions' (length sessions')))))))"

text \<open>The detail route from the call of \<open>getSessionDetail\<close> on.\<close>

definition sessionDetail :: "platform \<Rightarrow> jsstring \<Rightarrow> jsstring \<Rightarrow> response outcome" where
  "sessionDetail P analysisDir sessionId =
     await (getSessionDetail P analysisDir sessionId) (\<lambda>detail.
       case detail of
         None \<Rightarrow> Inr (Response 404 (Failure (js ''Session not found'')))
       | Some d \<Rightarrow> Inr (Response 200 (SuccessDetail d)))"

text \<open>The \<open>catch\<close> of both routes.\<close>

definition internalError :: "js_error \<Rightarrow> response outcome" where
  "internalError e = Inr (Response 500 (Failure (message e)))"

text \<open>\<^verbatim>\<open>pathname.match(/^\/api\/analysis\/([^/]+)$/)\<close>: the first group, if it matches.\<close>

definition detailMatch :: "jsstring \<Rightarrow> jsstring option" where
  "detailMatch p =
     (case stripPrefix (js ''/api/analysis/'') p of
        None \<Rightarrow> None
      | Some r \<Rightarrow> if r \<noteq> [] \<and> (\<forall>c \<in> set r. c \<noteq> 0x2F) then Some r else None)"

text \<open>
  The result is the returned flag and the response written, if any. The handlers of a
  \<open>catch\<close> return a value, so nothing escapes either \<open>try\<close>.
\<close>

definition handleAnalysisRoutes :: "platform \<Rightarrow> RouteContext \<Rightarrow> bool \<times> response outcome option" where
  "handleAnalysisRoutes P ctx =
     (if pathname ctx = js ''/api/analysis'' \<and> reqMethod ctx = js ''GET'' then
        (True, Some (try_catch
           (await (resolvePath P (projectPathOf ctx)) (\<lambda>resolvedPath.
              listSessions P (analysisDirOf P resolvedPath)))
           internalError))
      else
        (case detailMatch (pathname ctx) of
           Some encoded \<Rightarrow>
             if reqMethod ctx = js ''GET'' then
               (True, Some (try_catch
                  (await (decodeURIComponent P encoded) (\<lambda>sessionId.
                   await (resolvePath P (projectPathOf ctx)) (\<lambda>resolvedPath.
                     sessionDetail P (analysisDirOf P resolvedPath) sessionId)))
                  internalError))
             else (False, None)
         | None \<Rightarrow> (False, None)))"

section \<open>Structured data renderer\<close>

text \<open>
  The element tree of the first render: every \<open>useState(true)\<close> still holds its initial
  value. A node that shows \<open>String(v)\<close> carries \<open>v\<close>.
\<close>

datatype view =
    NullMarker
  | BoolBadge bool
  | NumberText rat
  | Link jsstring
  | PreWrapped jsstring
  | InlineText jsstring
  | StringOf jsval
  | EmptyList
  | BadgeRow "jsval list"
  | Collapsible bool nat "(nat \<times> view) list option"
  | EmptyObject
  | Cards "view list"
  | ObjectField jsstring bool view
  | ArrayField jsstring view
  | PrimitiveField jsstring view

datatype jstype = TUndefined | TObject | TBoolean | TNumber | TString

fun typeof :: "jsval \<Rightarrow> jstype" where
  "typeof JUndefined = TUndefined"
| "typeof JNull = TObject"
| "typeof (JBool _) = TBoolean"
| "typeof (JNum _) = TNumber"
| "typeof (JStr _) = TString"
| "typeof (JArr _) = TObject"
| "typeof (JObj _) = TObject"

fun isArray :: "jsval \<Rightarrow> bool" where
  "isArray (JArr _) = True"
| "isArray _ = False"

definition isObject :: "jsval \<Rightarrow> bool" where
  "isObject v = (typeof v = TObject \<and> v \<noteq> JNull \<and> \<not> isArray v)"

text \<open>White space and line terminators, as \<open>trim\<close> strips them.\<close>

definition isWhiteSpace :: "code_unit \<Rightarrow> bool" where
  "isWhiteSpace c =
     (c = 0x09 \<or> c = 0x0B \<or> c = 0x0C \<or> c = 0x20 \<or> c = 0xA0 \<or> c = 0x1680 \<or>
      (0x2000 \<le> c \<and> c \<le> 0x200A) \<or> c = 0x202F \<or> c = 0x205F \<or> c = 0x3000 \<or>
      c = 0xFEFF \<or> isLineTerminator c)"

definition trim :: "jsstring \<Rightarrow> jsstring" where
  "trim s = rev (dropWhile isWhiteSpace (rev (dropWhile isWhiteSpace s)))"

definition isUpperAZ :: "code_unit \<Rightarrow> bool" where
  "isUpperAZ c = (0x41 \<le> c \<and> c \<le> 0x5A)"

text \<open>
  The three replacements and the \<open>trim\<close>. \<open>toUpperCase\<close> is the built-in, applied to
  the one code unit that \<^verbatim>\<open>/^./\<close> matches; it is a parameter.
\<close>

definition formatLabel :: "(jsstring \<Rightarrow> jsstring) \<Rightarrow> jsstring \<Rightarrow> jsstring" where
  "formatLabel toUpperCase key =
     (let s1 = replaceAll 0x5F space key;
          s2 = concat (map (\<lambda>c. if isUpperAZ c then [space, c] else [c]) s1);
          s3 = (case s2 of
                  [] \<Rightarrow> []
                | c # cs \<Rightarrow> if isLineTerminator c then c # cs else toUpperCase [c] @ cs)
      in trim s3)"

definition startsWith :: "jsstring \<Rightarrow> jsstring \<Rightarrow> bool" where
  "startsWith s p = (take (length p) s = p)"

fun PrimitiveValue :: "jsval \<Rightarrow> view" where
  "PrimitiveValue JNull = NullMarker"
| "PrimitiveValue JUndefined = NullMarker"
| "PrimitiveValue (JBool b) = BoolBadge b"
| "PrimitiveValue (JNum n) = NumberText n"
| "PrimitiveValue (JStr s) =
     (if startsWith s (js ''http://'') \<or> startsWith s (js ''https://'') then Link s
      else if length s > 100 then PreWrapped s
      else InlineText s)"
| "PrimitiveValue v = StringOf v"

text \<open>
  \<open>arrayCards\<close> is the \<open>items.map\<close> of the indexed list and \<open>cardItems\<close> the
  \<open>entries.map\<close> of \<open>ObjectView\<close>. An element of an array goes to \<open>ObjectView\<close>
  (with the default depth) when \<open>isObject\<close> holds of it, and to \<open>PrimitiveValue\<close>
  otherwise.
\<close>

function (sequential)
      ArrayView :: "(jsstring \<Rightarrow> jsstring) \<Rightarrow> jsval list \<Rightarrow> view"
  and arrayCards :: "(jsstring \<Rightarrow> jsstring) \<Rightarrow> jsval list \<Rightarrow> nat \<Rightarrow> (nat \<times> view) list"
  and ObjectView :: "(jsstring \<Rightarrow> jsstring) \<Rightarrow> (jsstring \<times> jsval) list \<Rightarrow> nat \<Rightarrow> view"
  and cardItems :: "(jsstring \<Rightarrow> jsstring) \<Rightarrow> (jsstring \<times> jsval) list \<Rightarrow> nat \<Rightarrow> view list"
  and CardItem :: "(jsstring \<Rightarrow> jsstring) \<Rightarrow> jsstring \<Rightarrow> jsval \<Rightarrow> nat \<Rightarrow> view"
where
  "ArrayView U items =
     (if length items = 0 then EmptyList
      else if list_all (\<lambda>item. typeof item \<noteq> TObject \<or> item = JNull) items then BadgeRow items
      else (let expanded = True
            in Collapsible expanded (length items)
                 (if expanded then Some (arrayCards U items 0) else None)))"
| "arrayCards U [] index = []"
| "arrayCards U (item # rest) index =
     (index + 1,
      case item of
        JObj entries \<Rightarrow> ObjectView U entries 0
      | _ \<Rightarrow> PrimitiveValue item)
     # arrayCards U rest (index + 1)"
| "ObjectView U entries depth =
     (if length entries = 0 then EmptyObject else Cards (cardItems U entries depth))"
| "cardItems U [] depth = []"
| "cardItems U ((key, v) # rest) depth = CardItem U key v depth # cardItems U rest depth"
| "CardItem U label (JObj entries) depth =
     ObjectField (formatLabel U label) (depth > 1) (ObjectView U entries (depth + 1))"
| "CardItem U label (JArr items) depth = ArrayField (formatLabel U label) (ArrayView U items)"
| "CardItem U label v depth = PrimitiveField (formatLabel U label) (PrimitiveValue v)"
  by pat_completeness auto

termination
  by (relation "measure (\<lambda>x. case x of
        Inl (Inl (U, items)) \<Rightarrow> 2 * size (JArr items) + 1
      | Inl (Inr (U, items, index)) \<Rightarrow> 2 * size (JArr items)
      | Inr (Inl (U, entries, depth)) \<Rightarrow> 2 * size (JObj entries) + 1
      | Inr (Inr (Inl (U, entries, depth))) \<Rightarrow> 2 * size (JObj entries)
      | Inr (Inr (Inr (U, label, v, depth))) \<Rightarrow> 2 * size v + 2)") simp_all

section \<open>Sample file systems\<close>

text \<open>
  A small file system for the examples: a table from path to node. A directory lists the
  names of its children; a listed name without a node of its own is an entry that
  \<open>stat\<close> cannot resolve (a dangling link, or a folder removed after the listing was
  taken). \<open>Unreadable\<close> is a file whose content cannot be read.
\<close>

datatype node = Directory "jsstring list" | File jsstring | Unreadable

definition mounted :: "(jsstring \<times> node) list \<Rightarrow> (jsstring \<Rightarrow> jsval outcome) \<Rightarrow> platform" where
  "mounted disk parse =
     \<lparr>existsSync = (\<lambda>p. map_of disk p \<noteq> None),
      readFile = (\<lambda>p. case map_of disk p of
                        Some (File text) \<Rightarrow> Inr text
                      | Some Unreadable \<Rightarrow> Inl (Error (js ''EACCES''))
                      | Some (Directory _) \<Rightarrow> Inl (Error (js ''EISDIR''))
                      | None \<Rightarrow> Inl (Error (js ''ENOENT''))),
      stat = (\<lambda>p. case map_of disk p of
                    Some (Directory _) \<Rightarrow> Inr \<lparr>isDirectory = True\<rparr>
                  | Some _ \<Rightarrow> Inr \<lparr>isDirectory = False\<rparr>
                  | None \<Rightarrow> Inl (Error (js ''ENOENT''))),
      readdir = (\<lambda>p. case map_of disk p of
                       Some (Directory names) \<Rightarrow> Inr names
                     | Some _ \<Rightarrow> Inl (Error (js ''ENOTDIR''))
                     | None \<Rightarrow> Inl (Error (js ''ENOENT''))),
      join = (\<lambda>a b. a @ js ''/'' @ b),
      JSON_parse = parse,
      resolvePath = (\<lambda>p. Inr p),
      decodeURIComponent = (\<lambda>s. Inr s)\<rparr>"

definition quoted :: "jsstring \<Rightarrow> jsstring" where
  "quoted s = [0x22] @ s @ [0x22]"

text \<open>Three documents: an object with a topic, an object whose topic is the empty
  string, and a text cut off after its first brace.\<close>

definition docTopic :: jsstring where
  "docTopic = js ''{'' @ quoted (js ''topic'') @ js '':'' @ quoted (js ''Cache design'') @ js ''}''"

definition docEmptyTopic :: jsstring where
  "docEmptyTopic = js ''{'' @ quoted (js ''topic'') @ js '':'' @ quoted [] @ js ''}''"

definition docCutOff :: jsstring where
  "docCutOff = js ''{''"

text \<open>A fourth document: the number 42, which is valid JSON and not an object.\<close>

definition docNumber :: jsstring where
  "docNumber = js ''42''"

text \<open>\<open>JSON.parse\<close> on these documents; it is applied to no other text in the
  examples.\<close>

definition parseSample :: "jsstring \<Rightarrow> jsval outcome" where
  "parseSample text =
     (if text = docTopic then Inr (JObj [(js ''topic'', JStr (js ''Cache design''))])
      else if text = docEmptyTopic then Inr (JObj [(js ''topic'', JStr [])])
      else if text = docNumber then Inr (JNum 42)
      else Inl (Error (js ''SyntaxError'')))"

definition diskNumber :: "(jsstring \<times> node) list" where
  "diskNumber =
     [(js ''/w'', Directory [js ''count.json'']),
      (js ''/w/count.json'', File docNumber)]"

definition diskReaders :: "(jsstring \<times> node) list" where
  "diskReaders =
     [(js ''/w'', Directory [js ''locked.json'', js ''cut.json'', js ''good.json'']),
      (js ''/w/locked.json'', Unreadable),
      (js ''/w/cut.json'', File docCutOff),
      (js ''/w/good.json'', File docTopic)]"

definition inProgress :: "jsstring \<Rightarrow> jsstring \<Rightarrow> jsstring \<Rightarrow> AnalysisSessionSummary" where
  "inProgress folder t d =
     \<lparr>id' = folder, name = folder, topic = JStr t, createdAt = d,
      status = in_progress, hasConclusions = False\<rparr>"

definition diskThreeDates :: "(jsstring \<times> node) list" where
  "diskThreeDates =
     [(js ''/w'', Directory [js ''ANL-a-2026-01-01'', js ''ANL-b-2026-02-15'', js ''ANL-c-2025-12-31'']),
      (js ''/w/ANL-a-2026-01-01'', Directory []),
      (js ''/w/ANL-b-2026-02-15'', Directory []),
      (js ''/w/ANL-c-2025-12-31'', Directory [])]"

definition diskSameDate :: "(jsstring \<times> node) list" where
  "diskSameDate =
     [(js ''/w'', Directory [js ''ANL-a-2026-01-01'', js ''ANL-c-2026-02-15'', js ''ANL-b-2026-01-01'']),
      (js ''/w/ANL-a-2026-01-01'', Directory []),
      (js ''/w/ANL-c-2026-02-15'', Directory []),
      (js ''/w/ANL-b-2026-01-01'', Directory [])]"

text \<open>The path of a session folder's conclusions artifact.\<close>

definition conclusionsPath :: "platform \<Rightarrow> jsstring \<Rightarrow> jsstring \<Rightarrow> jsstring" where
  "conclusionsPath P dir n = join P (join P dir n) (js ''conclusions.json'')"

definition diskSessions :: "(jsstring \<times> node) list" where
  "diskSessions =
     [(js ''/w'', Directory [js ''ANL-my-cool-topic-2026-03-01'', js ''ANL-x-2026-01-01'',
                            js ''ANL-y-2026-01-02'', js ''ANL-z-2026-01-03'']),
      (js ''/w/ANL-my-cool-topic-2026-03-01'', Directory []),
      (js ''/w/ANL-x-2026-01-01'', Directory [js ''conclusions.json'']),
      (js ''/w/ANL-x-2026-01-01/conclusions.json'', File docCutOff),
      (js ''/w/ANL-y-2026-01-02'', Directory [js ''conclusions.json'']),
      (js ''/w/ANL-y-2026-01-02/conclusions.json'', File docEmptyTopic),
      (js ''/w/ANL-z-2026-01-03'', Directory [js ''conclusions.json'']),
      (js ''/w/ANL-z-2026-01-03/conclusions.json'', File docTopic)]"

definition diskDangling :: "(jsstring \<times> node) list" where
  "diskDangling =
     [(js ''/p/.workflow/.analysis'', Directory [js ''ANL-gone-2026-01-01'', js ''ANL-kept-2026-01-02'']),
      (js ''/p/.workflow/.analysis/ANL-kept-2026-01-02'', Directory [])]"

definition diskMixed :: "(jsstring \<times> node) list" where
  "diskMixed =
     [(js ''/p/.workflow/.analysis'',
         Directory [js ''notes.txt'', js ''ANL-file-2026-01-01'', js ''ANL-ok-2026-01-02'',
                    js ''ANL-bad-2026-01-03'']),
      (js ''/p/.workflow/.analysis/notes.txt'', File (js ''to do'')),
      (js ''/p/.workflow/.analysis/ANL-file-2026-01-01'', File (js ''not a folder'')),
      (js ''/p/.workflow/.analysis/ANL-ok-2026-01-02'', Directory [js ''conclusions.json'']),
      (js ''/p/.workflow/.analysis/ANL-ok-2026-01-02/conclusions.json'', File docTopic),
      (js ''/p/.workflow/.analysis/ANL-bad-2026-01-03'', Directory [js ''conclusions.json'']),
      (js ''/p/.workflow/.analysis/ANL-bad-2026-01-03/conclusions.json'', Unreadable)]"

definition listRequest :: RouteContext where
  "listRequest =
     \<lparr>pathname = js ''/api/analysis'', reqMethod = js ''GET'',
      projectPathParam = None, initialPath = js ''/p''\<rparr>"

text \<open>\<open>toUpperCase\<close> on the code units of ASCII, for the examples.\<close>

definition upperAscii :: "jsstring \<Rightarrow> jsstring" where
  "upperAscii s = map (\<lambda>c. if 0x61 \<le> c \<and> c \<le> 0x7A then c - 0x20 else c) s"


section \<open>Evaluation of the sample file systems\<close>

lemmas string_defs =
  js_def hyphen_def space_def quoted_def docTopic_def docEmptyTopic_def docCutOff_def
  docNumber_def

lemma mounted_simps:
  "existsSync (mounted disk parse) p = (map_of disk p \<noteq> None)"
  "readFile (mounted disk parse) p =
     (case map_of disk p of
        Some (File text) \<Rightarrow> Inr text
      | Some Unreadable \<Rightarrow> Inl (Error (js ''EACCES''))
      | Some (Directory names) \<Rightarrow> Inl (Error (js ''EISDIR''))
      | None \<Rightarrow> Inl (Error (js ''ENOENT'')))"
  "stat (mounted disk parse) p =
     (case map_of disk p of
        Some (Directory names) \<Rightarrow> Inr \<lparr>isDirectory = True\<rparr>
      | Some (File text) \<Rightarrow> Inr \<lparr>isDirectory = False\<rparr>
      | Some Unreadable \<Rightarrow> Inr \<lparr>isDirectory = False\<rparr>
      | None \<Rightarrow> Inl (Error (js ''ENOENT'')))"
  "readdir (mounted disk parse) p =
     (case map_of disk p of
        Some (Directory names) \<Rightarrow> Inr names
      | Some (File text) \<Rightarrow> Inl (Error (js ''ENOTDIR''))
      | Some Unreadable \<Rightarrow> Inl (Error (js ''ENOTDIR''))
      | None \<Rightarrow> Inl (Error (js ''ENOENT'')))"
  "join (mounted disk parse) a b = a @ js ''/'' @ b"
  "JSON_parse (mounted disk parse) = parse"
  "resolvePath (mounted disk parse) p = Inr p"
  "decodeURIComponent (mounted disk parse) s = Inr s"
  by (simp_all add: mounted_def split: option.splits node.splits)

section \<open>Artifact reader: no error escapes\<close>

lemma readJsonFile_eq:
  "readJsonFile P p =
     Inr (if existsSync P p
          then (case readFile P p of
                  Inl e \<Rightarrow> JNull
                | Inr t \<Rightarrow> (case JSON_parse P t of Inl e \<Rightarrow> JNull | Inr v \<Rightarrow> v))
          else JNull)"
  by (simp add: readJsonFile_def try_catch_def await_def split: sum.splits)

lemma readTextFile_eq:
  "readTextFile P p =
     Inr (if existsSync P p
          then (case readFile P p of Inl e \<Rightarrow> None | Inr t \<Rightarrow> Some t)
          else None)"
  by (simp add: readTextFile_def try_catch_def await_def split: sum.splits)

text \<open>
  Claim C3 as stated fails: for a file that holds the JSON document \<open>42\<close>,
  \<open>readJsonFile\<close> returns the number 42, which is neither an object nor \<open>null\<close>.
\<close>

theorem readJsonFile_number_counterexample:
  "existsSync (mounted diskNumber parseSample) (js ''/w/count.json'') \<and>
   readFile (mounted diskNumber parseSample) (js ''/w/count.json'') = Inr (js ''42'') \<and>
   readJsonFile (mounted diskNumber parseSample) (js ''/w/count.json'') = Inr (JNum 42) \<and>
   typeof (JNum 42) = TNumber \<and> JNum 42 \<noteq> JNull"
  by (simp add: readJsonFile_eq mounted_simps parseSample_def diskNumber_def string_defs)

text \<open>
  Claim C3, as amended. For every path, \<open>readTextFile\<close> returns the text of the
  file or \<open>null\<close>, and \<open>readJsonFile\<close> returns the value that \<open>JSON.parse\<close> made
  of the text, whatever its kind (an object, but also an array, a string, a number, a
  boolean or \<open>null\<close>), or \<open>null\<close>; neither throws. A path where nothing exists, a
  file whose read fails and a text that does not parse all give the same \<open>null\<close>.
\<close>

theorem readers_never_throw:
  "(\<exists>r. readTextFile P p = Inr r) \<and> (\<exists>v. readJsonFile P p = Inr v) \<and>
   (\<not> existsSync P p \<longrightarrow> readTextFile P p = Inr None \<and> readJsonFile P p = Inr JNull) \<and>
   (\<forall>e. readFile P p = Inl e \<longrightarrow> readTextFile P p = Inr None \<and> readJsonFile P p = Inr JNull) \<and>
   (\<forall>t e. readFile P p = Inr t \<and> JSON_parse P t = Inl e \<longrightarrow> readJsonFile P p = Inr JNull) \<and>
   (\<forall>t. existsSync P p \<and> readFile P p = Inr t \<longrightarrow> readTextFile P p = Inr (Some t)) \<and>
   (\<forall>t v. existsSync P p \<and> readFile P p = Inr t \<and> JSON_parse P t = Inr v \<longrightarrow>
      readJsonFile P p = Inr v)"
  by (auto simp: readJsonFile_eq readTextFile_eq)

theorem readers_never_throw_witness:
  "readJsonFile (mounted diskReaders parseSample) (js ''/w/absent.json'') = Inr JNull \<and>
   readJsonFile (mounted diskReaders parseSample) (js ''/w/locked.json'') = Inr JNull \<and>
   readJsonFile (mounted diskReaders parseSample) (js ''/w/cut.json'') = Inr JNull \<and>
   readJsonFile (mounted diskReaders parseSample) (js ''/w/good.json'') =
     Inr (JObj [(js ''topic'', JStr (js ''Cache design''))]) \<and>
   readTextFile (mounted diskReaders parseSample) (js ''/w/absent.json'') = Inr None \<and>
   readTextFile (mounted diskReaders parseSample) (js ''/w/locked.json'') = Inr None \<and>
   readTextFile (mounted diskReaders parseSample) (js ''/w/good.json'') = Inr (Some docTopic)"
proof -
  let ?W = "mounted diskReaders parseSample"
  have absent: "\<not> existsSync ?W (js ''/w/absent.json'')"
    by (simp add: mounted_simps diskReaders_def string_defs)
  have locked: "readFile ?W (js ''/w/locked.json'') = Inl (Error (js ''EACCES''))"
    by (simp add: mounted_simps diskReaders_def string_defs)
  have cut: "readFile ?W (js ''/w/cut.json'') = Inr docCutOff"
    "JSON_parse ?W docCutOff = Inl (Error (js ''SyntaxError''))"
    by (simp_all add: mounted_simps diskReaders_def parseSample_def string_defs)
  have good: "existsSync ?W (js ''/w/good.json'')"
    "readFile ?W (js ''/w/good.json'') = Inr docTopic"
    "JSON_parse ?W docTopic = Inr (JObj [(js ''topic'', JStr (js ''Cache design''))])"
    by (simp_all add: mounted_simps diskReaders_def parseSample_def string_defs)
  from readers_never_throw [of ?W "js ''/w/absent.json''"] absent
  have 1: "readTextFile ?W (js ''/w/absent.json'') = Inr None"
    "readJsonFile ?W (js ''/w/absent.json'') = Inr JNull"
    by blast+
  from readers_never_throw [of ?W "js ''/w/locked.json''"] locked
  have 2: "readTextFile ?W (js ''/w/locked.json'') = Inr None"
    "readJsonFile ?W (js ''/w/locked.json'') = Inr JNull"
    by blast+
  from readers_never_throw [of ?W "js ''/w/cut.json''"] cut
  have 3: "readJsonFile ?W (js ''/w/cut.json'') = Inr JNull"
    by blast
  from readers_never_throw [of ?W "js ''/w/good.json''"] good
  have 4: "readTextFile ?W (js ''/w/good.json'') = Inr (Some docTopic)"
    "readJsonFile ?W (js ''/w/good.json'') =
       Inr (JObj [(js ''topic'', JStr (js ''Cache design''))])"
    by blast+
  from 1 2 3 4 show ?thesis by blast
qed

section \<open>Session identity\<close>

lemma stripPrefix_Some: "stripPrefix p s = Some r \<longleftrightarrow> s = p @ r"
  by (induction p s rule: stripPrefix.induct) auto

lemma isDateToken_length: "isDateToken d \<Longrightarrow> length d = 10"
  by (erule isDateToken.elims) simp_all

lemma isDigit_not_terminator: "isDigit c \<Longrightarrow> \<not> isLineTerminator c"
  by (auto simp: isDigit_def isLineTerminator_def)

lemma hyphen_not_terminator: "\<not> isLineTerminator hyphen"
  by (simp add: hyphen_def isLineTerminator_def)

lemma isDateToken_no_terminator: "isDateToken d \<Longrightarrow> c \<in> set d \<Longrightarrow> \<not> isLineTerminator c"
  by (erule isDateToken.elims) (auto simp: isDigit_not_terminator hyphen_not_terminator)

lemma matchDateTail_Some: "matchDateTail r = Some d \<longleftrightarrow> r = hyphen # d \<and> isDateToken d"
  by (cases r) auto

lemma giveBack_Some:
  "giveBack held rest = Some (s, d) \<longleftrightarrow>
     (\<exists>t. rev held = s @ t \<and> s \<noteq> [] \<and> t @ rest = hyphen # d \<and> isDateToken d)"
proof (induction held arbitrary: rest)
  case Nil
  show ?case by simp
next
  case (Cons c held)
  show ?case
  proof (cases "matchDateTail rest")
    case (Some d')
    then have r: "rest = hyphen # d'" and d': "isDateToken d'"
      by (simp_all add: matchDateTail_Some)
    have "(\<exists>t. rev held @ [c] = s @ t \<and> s \<noteq> [] \<and> t @ rest = hyphen # d \<and> isDateToken d)
          \<longleftrightarrow> s = rev held @ [c] \<and> d = d'"
    proof
      assume "\<exists>t. rev held @ [c] = s @ t \<and> s \<noteq> [] \<and> t @ rest = hyphen # d \<and> isDateToken d"
      then obtain t where t: "rev held @ [c] = s @ t" "t @ rest = hyphen # d" "isDateToken d"
        by blast
      have "length (t @ rest) = length (hyphen # d)" using t(2) by simp
      then have "t = []"
        using r isDateToken_length [OF d'] isDateToken_length [OF t(3)] by simp
      then show "s = rev held @ [c] \<and> d = d'" using t r by simp
    next
      assume "s = rev held @ [c] \<and> d = d'"
      then show "\<exists>t. rev held @ [c] = s @ t \<and> s \<noteq> [] \<and> t @ rest = hyphen # d \<and> isDateToken d"
        using r d' by simp
    qed
    then show ?thesis using Some by auto
  next
    case None
    have "(\<exists>t. rev held @ [c] = s @ t \<and> s \<noteq> [] \<and> t @ rest = hyphen # d \<and> isDateToken d)
          \<longleftrightarrow> (\<exists>t'. rev held = s @ t' \<and> s \<noteq> [] \<and> t' @ c # rest = hyphen # d \<and> isDateToken d)"
    proof
      assume "\<exists>t. rev held @ [c] = s @ t \<and> s \<noteq> [] \<and> t @ rest = hyphen # d \<and> isDateToken d"
      then obtain t where t: "rev held @ [c] = s @ t" "s \<noteq> []" "t @ rest = hyphen # d" "isDateToken d"
        by blast
      have "t \<noteq> []"
      proof
        assume "t = []"
        then have "matchDateTail rest = Some d" using t by (simp add: matchDateTail_Some)
        then show False using None by simp
      qed
      then obtain t' x where t': "t = t' @ [x]" by (metis rev_exhaust)
      then have "rev held = s @ t'" "x = c" using t(1) by simp_all
      then show "\<exists>t'. rev held = s @ t' \<and> s \<noteq> [] \<and> t' @ c # rest = hyphen # d \<and> isDateToken d"
        using t t' by auto
    next
      assume "\<exists>t'. rev held = s @ t' \<and> s \<noteq> [] \<and> t' @ c # rest = hyphen # d \<and> isDateToken d"
      then obtain t' where "rev held = s @ t'" "s \<noteq> []" "t' @ c # rest = hyphen # d" "isDateToken d"
        by blast
      then have "rev held @ [c] = s @ (t' @ [c]) \<and> s \<noteq> [] \<and> (t' @ [c]) @ rest = hyphen # d \<and> isDateToken d"
        by simp
      then show "\<exists>t. rev held @ [c] = s @ t \<and> s \<noteq> [] \<and> t @ rest = hyphen # d \<and> isDateToken d"
        by blast
    qed
    then show ?thesis using None Cons.IH [of "c # rest"] by simp
  qed
qed

lemma js_prefix: "js ''ANL-'' = js ''ANL'' @ [hyphen]"
  by (simp add: js_def hyphen_def)

lemma parseSessionId_Some:
  "parseSessionId n = Some \<lparr>slug = s, date = d\<rparr> \<longleftrightarrow>
     namedAsSession n s d \<and> (\<forall>c \<in> set s. \<not> isLineTerminator c)"
proof
  assume "parseSessionId n = Some \<lparr>slug = s, date = d\<rparr>"
  then obtain rest where n: "n = js ''ANL-'' @ rest"
    and g: "giveBack (rev (takeWhile (\<lambda>c. \<not> isLineTerminator c) rest))
              (dropWhile (\<lambda>c. \<not> isLineTerminator c) rest) = Some (s, d)"
    by (auto simp: parseSessionId_def stripPrefix_Some split: option.splits)
  from g obtain t where t: "takeWhile (\<lambda>c. \<not> isLineTerminator c) rest = s @ t" "s \<noteq> []"
      "t @ dropWhile (\<lambda>c. \<not> isLineTerminator c) rest = hyphen # d" "isDateToken d"
    by (auto simp: giveBack_Some)
  have "rest = (s @ t) @ dropWhile (\<lambda>c. \<not> isLineTerminator c) rest"
    using t(1) takeWhile_dropWhile_id [of "\<lambda>c. \<not> isLineTerminator c" rest] by simp
  then have rest: "rest = s @ hyphen # d" using t(3) by simp
  have "set s \<subseteq> set (takeWhile (\<lambda>c. \<not> isLineTerminator c) rest)" using t(1) by simp
  then have "\<forall>c \<in> set s. \<not> isLineTerminator c" by (auto dest: set_takeWhileD)
  then show "namedAsSession n s d \<and> (\<forall>c \<in> set s. \<not> isLineTerminator c)"
    using n rest t by (simp add: namedAsSession_def js_prefix)
next
  assume a: "namedAsSession n s d \<and> (\<forall>c \<in> set s. \<not> isLineTerminator c)"
  define rest where "rest = s @ hyphen # d"
  have n: "n = js ''ANL-'' @ rest" and s: "s \<noteq> []" and d: "isDateToken d"
    using a by (simp_all add: namedAsSession_def js_prefix rest_def)
  have "\<forall>c \<in> set rest. \<not> isLineTerminator c"
    using a d by (auto simp: rest_def hyphen_not_terminator isDateToken_no_terminator)
  then have tw: "takeWhile (\<lambda>c. \<not> isLineTerminator c) rest = rest"
    and dw: "dropWhile (\<lambda>c. \<not> isLineTerminator c) rest = []"
    by simp_all
  have gb: "giveBack (rev rest) [] = Some (s, d)"
    using s d by (simp add: giveBack_Some rest_def)
  have sp: "stripPrefix (js ''ANL-'') n = Some rest"
    using n by (simp add: stripPrefix_Some)
  show "parseSessionId n = Some \<lparr>slug = s, date = d\<rparr>"
    by (simp add: parseSessionId_def sp tw dw gb)
qed

lemma namedAsSession_parts:
  assumes "namedAsSession n s d"
  shows "d = drop (length n - 10) n" and "s = take (length n - 15) (drop 4 n)"
proof -
  define pre where "pre = js ''ANL'' @ [hyphen]"
  have n: "n = pre @ s @ [hyphen] @ d" and d: "length d = 10"
    using assms by (simp_all add: namedAsSession_def isDateToken_length pre_def)
  have pre: "length pre = 4" by (simp add: pre_def js_def)
  have "n = (pre @ s @ [hyphen]) @ d" using n by simp
  moreover have "length n - 10 = length (pre @ s @ [hyphen])" using n d by simp
  ultimately show "d = drop (length n - 10) n" by (metis append_eq_conv_conj)
  have "drop 4 n = s @ [hyphen] @ d" using n pre by simp
  moreover have "length n - 15 = length s" using n d pre by simp
  ultimately show "s = take (length n - 15) (drop 4 n)" by simp
qed

text \<open>
  Claim C5, as amended. \<open>parseSessionId\<close> returns the identity \<open>(s, d)\<close> exactly when
  the whole name is the literal prefix, a hyphen, a non-empty slug \<open>s\<close> free of line
  terminators (line feed, carriage return, U+2028, U+2029), a hyphen, and a date token
  \<open>d\<close> of the shape \<open>YYYY-MM-DD\<close> at the very end; it returns \<open>null\<close> for every other
  name. The date is then the last ten code units of the name and the slug everything
  between the prefix and the hyphen before them, whatever date-like text it contains.
\<close>

theorem parseSessionId_exact:
  "(parseSessionId n = Some \<lparr>slug = s, date = d\<rparr> \<longleftrightarrow>
      namedAsSession n s d \<and> (\<forall>c \<in> set s. \<not> isLineTerminator c)) \<and>
   (parseSessionId n = None \<longleftrightarrow>
      \<not> (\<exists>s' d'. namedAsSession n s' d' \<and> (\<forall>c \<in> set s'. \<not> isLineTerminator c))) \<and>
   (namedAsSession n s d \<longrightarrow>
      d = drop (length n - 10) n \<and> s = take (length n - 15) (drop 4 n))"
proof -
  have "parseSessionId n = None \<longleftrightarrow>
      \<not> (\<exists>s' d'. namedAsSession n s' d' \<and> (\<forall>c \<in> set s'. \<not> isLineTerminator c))"
  proof (cases "parseSessionId n")
    case None
    then show ?thesis using parseSessionId_Some [of n] by auto
  next
    case (Some i)
    then have "parseSessionId n = Some \<lparr>slug = slug i, date = date i\<rparr>" by simp
    then show ?thesis using parseSessionId_Some [of n "slug i" "date i"] by auto
  qed
  then show ?thesis
    using parseSessionId_Some [of n s d] namedAsSession_parts [of n s d] by blast
qed

lemmas parse_defs = parseSessionId_def isLineTerminator_def isDigit_def

theorem parseSessionId_line_break_counterexample:
  "namedAsSession (js ''ANL-a'' @ [0x0A] @ js ''b-2026-03-01'')
     (js ''a'' @ [0x0A] @ js ''b'') (js ''2026-03-01'') \<and>
   parseSessionId (js ''ANL-a'' @ [0x0A] @ js ''b-2026-03-01'') = None"
  by (simp add: namedAsSession_def parse_defs string_defs)

theorem parseSessionId_exact_witness:
  "namedAsSession (js ''ANL-a-2020-01-01-2026-03-01'') (js ''a-2020-01-01'') (js ''2026-03-01'') \<and>
   parseSessionId (js ''ANL-a-2020-01-01-2026-03-01'') =
     Some \<lparr>slug = js ''a-2020-01-01'', date = js ''2026-03-01''\<rparr> \<and>
   parseSessionId (js ''ANL--2026-03-01'') = None"
proof -
  have h: "namedAsSession (js ''ANL-a-2020-01-01-2026-03-01'') (js ''a-2020-01-01'') (js ''2026-03-01'') \<and>
      (\<forall>c \<in> set (js ''a-2020-01-01''). \<not> isLineTerminator c)"
    by (simp add: namedAsSession_def parse_defs string_defs)
  have e: "parseSessionId (js ''ANL--2026-03-01'') = None"
    by (simp add: parse_defs string_defs)
  from parseSessionId_exact [of "js ''ANL-a-2020-01-01-2026-03-01''" "js ''a-2020-01-01''" "js ''2026-03-01''"] h
  have "parseSessionId (js ''ANL-a-2020-01-01-2026-03-01'') =
     Some \<lparr>slug = js ''a-2020-01-01'', date = js ''2026-03-01''\<rparr>"
    by blast
  with h e show ?thesis by blast
qed

section \<open>The list operation: order of the result\<close>

lemma await_simps [simp]:
  "await (Inr v) k = k v"
  "await (Inl e) k = Inl e"
  by (simp_all add: await_def)

lemma await_Inr: "await m k = Inr r \<longleftrightarrow> (\<exists>v. m = Inr v \<and> k v = Inr r)"
  by (cases m) simp_all

lemma byDateDescending_le: "byDateDescending a b \<le> 0 \<longleftrightarrow> createdAt b \<le> createdAt a"
  by (auto simp: byDateDescending_def localeCompare_def)

lemma set_insertBy: "set (insertBy cmp x xs) = insert x (set xs)"
  by (induction xs) auto

lemma mset_insertBy: "mset (insertBy cmp x xs) = add_mset x (mset xs)"
  by (induction xs) auto

lemma mset_sortBy: "mset (sortBy cmp xs) = mset xs"
  by (induction xs) (auto simp: mset_insertBy)

lemma length_sortBy: "length (sortBy cmp xs) = length xs"
  using mset_sortBy [of cmp xs] by (metis size_mset)

lemma sorted_insertBy:
  "sorted_wrt (\<lambda>a b. createdAt b \<le> createdAt a) xs \<Longrightarrow>
   sorted_wrt (\<lambda>a b. createdAt b \<le> createdAt a) (insertBy byDateDescending x xs)"
proof (induction xs)
  case Nil
  show ?case by simp
next
  case (Cons y ys)
  show ?case
  proof (cases "createdAt y \<le> createdAt x")
    case True
    then have "\<forall>z \<in> set ys. createdAt z \<le> createdAt x"
      using Cons.prems by auto
    then show ?thesis using True Cons.prems by (simp add: byDateDescending_le)
  next
    case False
    then have "createdAt x \<le> createdAt y" by simp
    then show ?thesis
      using False Cons by (auto simp: byDateDescending_le set_insertBy)
  qed
qed

lemma sorted_sortBy:
  "sorted_wrt (\<lambda>a b. createdAt b \<le> createdAt a) (sortBy byDateDescending xs)"
  by (induction xs) (simp_all add: sorted_insertBy)

lemma filter_insertBy_other:
  "\<not> Q x \<Longrightarrow> filter Q (insertBy cmp x xs) = filter Q xs"
  by (induction xs) auto

lemma filter_insertBy_same_date:
  "createdAt x = d \<Longrightarrow>
   filter (\<lambda>s. createdAt s = d) (insertBy byDateDescending x xs) =
     x # filter (\<lambda>s. createdAt s = d) xs"
proof (induction xs)
  case Nil
  then show ?case by simp
next
  case (Cons y ys)
  show ?case
  proof (cases "createdAt y \<le> createdAt x")
    case True
    then show ?thesis using Cons.prems by (simp add: byDateDescending_le)
  next
    case False
    then have "createdAt y \<noteq> d" using Cons.prems by auto
    then show ?thesis using False Cons by (simp add: byDateDescending_le)
  qed
qed

lemma sortBy_stable:
  "filter (\<lambda>s. createdAt s = d) (sortBy byDateDescending xs) = filter (\<lambda>s. createdAt s = d) xs"
proof (induction xs)
  case Nil
  show ?case by simp
next
  case (Cons x xs)
  show ?case
  proof (cases "createdAt x = d")
    case True
    then show ?thesis using Cons.IH by (simp add: filter_insertBy_same_date)
  next
    case False
    then show ?thesis using Cons.IH by (simp add: filter_insertBy_other)
  qed
qed

lemma collectSessions_Inr:
  "collectSessions P dir folders acc = Inr ss \<Longrightarrow>
   ss = acc @ List.map_filter
                (\<lambda>f. case getSessionSummary P dir f of Inr r \<Rightarrow> r | Inl e \<Rightarrow> None) folders"
proof (induction folders arbitrary: acc)
  case Nil
  then show ?case by (simp add: List.map_filter_simps)
next
  case (Cons f folders)
  from Cons.prems obtain r where r: "getSessionSummary P dir f = Inr r"
    and rest: "collectSessions P dir folders (case r of None \<Rightarrow> acc | Some s \<Rightarrow> acc @ [s]) = Inr ss"
    by (auto simp: await_Inr)
  from Cons.IH [OF rest] r show ?case
    by (cases r) (simp_all add: List.map_filter_simps)
qed

lemma getSessionSummary_id:
  "getSessionSummary P dir f = Inr (Some s) \<Longrightarrow> id' s = f"
  by (auto simp: getSessionSummary_def Let_def await_Inr readJsonFile_def
      split: option.splits if_splits)

lemma listSessions_Inr:
  assumes "listSessions P dir = Inr resp"
  shows "(\<not> existsSync P dir \<and> resp = Response 200 (SuccessList [] 0)) \<or>
         (\<exists>folders ss. existsSync P dir \<and> readdir P dir = Inr folders \<and>
            collectSessions P dir folders [] = Inr ss \<and>
            resp = Response 200 (SuccessList (sortBy byDateDescending ss) (length ss)))"
  using assms
  by (auto simp: listSessions_def await_Inr Let_def length_sortBy split: if_splits)

lemmas summary_defs =
  mounted_simps getSessionSummary_def readJsonFile_eq deriveTopic_def or_js_def replaceAll_def Let_def inProgress_def

text \<open>
  Claim C7. Whenever the list operation answers with a list, the list is in descending
  order of \<open>createdAt\<close> (most recent first), its \<open>total\<close> is its length, and it holds
  exactly the summaries collected from the enumeration. The order used is the total order
  of the date strings, and the result is a function of the file system. Three folders
  dated 2026-01-01, 2026-02-15 and 2025-12-31 come back as 2026-02-15, 2026-01-01,
  2025-12-31.
\<close>

theorem list_sorted_by_date_descending:
  "listSessions P dir = Inr (Response code (SuccessList out t)) \<Longrightarrow>
     sorted_wrt (\<lambda>a b. createdAt b \<le> createdAt a) out \<and> t = length out \<and>
     (\<forall>folders ss. existsSync P dir \<and> readdir P dir = Inr folders \<and>
        collectSessions P dir folders [] = Inr ss \<longrightarrow> mset out = mset ss)"
  by (drule listSessions_Inr) (auto simp: sorted_sortBy length_sortBy mset_sortBy)

theorem list_sorted_by_date_descending_witness:
  "listSessions (mounted diskThreeDates parseSample) (js ''/w'') =
     Inr (Response 200 (SuccessList
       [inProgress (js ''ANL-b-2026-02-15'') (js ''b'') (js ''2026-02-15''),
        inProgress (js ''ANL-a-2026-01-01'') (js ''a'') (js ''2026-01-01''),
        inProgress (js ''ANL-c-2025-12-31'') (js ''c'') (js ''2025-12-31'')] 3)) \<and>
   sorted_wrt (\<lambda>a b. createdAt b \<le> createdAt a)
       [inProgress (js ''ANL-b-2026-02-15'') (js ''b'') (js ''2026-02-15''),
        inProgress (js ''ANL-a-2026-01-01'') (js ''a'') (js ''2026-01-01''),
        inProgress (js ''ANL-c-2025-12-31'') (js ''c'') (js ''2025-12-31'')]"
proof -
  let ?W = "mounted diskThreeDates parseSample"
  have a: "getSessionSummary ?W (js ''/w'') (js ''ANL-a-2026-01-01'') =
      Inr (Some (inProgress (js ''ANL-a-2026-01-01'') (js ''a'') (js ''2026-01-01'')))"
    by (simp add: summary_defs parse_defs diskThreeDates_def string_defs)
  have b: "getSessionSummary ?W (js ''/w'') (js ''ANL-b-2026-02-15'') =
      Inr (Some (inProgress (js ''ANL-b-2026-02-15'') (js ''b'') (js ''2026-02-15'')))"
    by (simp add: summary_defs parse_defs diskThreeDates_def string_defs)
  have c: "getSessionSummary ?W (js ''/w'') (js ''ANL-c-2025-12-31'') =
      Inr (Some (inProgress (js ''ANL-c-2025-12-31'') (js ''c'') (js ''2025-12-31'')))"
    by (simp add: summary_defs parse_defs diskThreeDates_def string_defs)
  have d: "existsSync ?W (js ''/w'')"
    "readdir ?W (js ''/w'') =
       Inr [js ''ANL-a-2026-01-01'', js ''ANL-b-2026-02-15'', js ''ANL-c-2025-12-31'']"
    by (simp_all add: mounted_simps diskThreeDates_def string_defs)
  have l: "listSessions ?W (js ''/w'') =
     Inr (Response 200 (SuccessList
       [inProgress (js ''ANL-b-2026-02-15'') (js ''b'') (js ''2026-02-15''),
        inProgress (js ''ANL-a-2026-01-01'') (js ''a'') (js ''2026-01-01''),
        inProgress (js ''ANL-c-2025-12-31'') (js ''c'') (js ''2025-12-31'')] 3))"
  proof -
    have "sortBy byDateDescending
       [inProgress (js ''ANL-a-2026-01-01'') (js ''a'') (js ''2026-01-01''),
        inProgress (js ''ANL-b-2026-02-15'') (js ''b'') (js ''2026-02-15''),
        inProgress (js ''ANL-c-2025-12-31'') (js ''c'') (js ''2025-12-31'')] =
       [inProgress (js ''ANL-b-2026-02-15'') (js ''b'') (js ''2026-02-15''),
        inProgress (js ''ANL-a-2026-01-01'') (js ''a'') (js ''2026-01-01''),
        inProgress (js ''ANL-c-2025-12-31'') (js ''c'') (js ''2025-12-31'')]"
      by (simp add: byDateDescending_def localeCompare_def inProgress_def js_def)
    then show ?thesis by (simp add: listSessions_def d a b c)
  qed
  from list_sorted_by_date_descending [OF l] l show ?thesis by blast
qed


text \<open>
  Claim C10. The comparator looks at the two \<open>createdAt\<close> strings only, and the sort is
  stable: for every date, the sessions of that date appear in the result in the order in
  which the directory enumeration gave their folders. In the example the folders of
  2026-01-01 are enumerated as \<open>a\<close>, \<open>b\<close> and stay so, which is not the descending
  order of their names.
\<close>

theorem equal_dates_keep_enumeration_order:
  "existsSync P dir \<Longrightarrow> readdir P dir = Inr folders \<Longrightarrow>
   listSessions P dir = Inr (Response code (SuccessList out t)) \<Longrightarrow>
     map id' (filter (\<lambda>s. createdAt s = d) out) =
       filter (\<lambda>f. \<exists>s. getSessionSummary P dir f = Inr (Some s) \<and> createdAt s = d) folders \<and>
     (\<forall>a b a' b'. createdAt a = createdAt a' \<and> createdAt b = createdAt b' \<longrightarrow>
        byDateDescending a b = byDateDescending a' b')"
proof -
  assume e: "existsSync P dir" and r: "readdir P dir = Inr folders"
    and l: "listSessions P dir = Inr (Response code (SuccessList out t))"
  let ?g = "\<lambda>f. case getSessionSummary P dir f of Inr r \<Rightarrow> r | Inl e \<Rightarrow> None"
  from listSessions_Inr [OF l] e r obtain ss
    where c: "collectSessions P dir folders [] = Inr ss"
      and out: "out = sortBy byDateDescending ss"
    by auto
  have ss: "ss = List.map_filter ?g folders"
    using collectSessions_Inr [OF c] by simp
  have g: "\<And>f s. ?g f = Some s \<longleftrightarrow> getSessionSummary P dir f = Inr (Some s)"
    by (simp split: sum.splits)
  have "map id' (filter (\<lambda>s. createdAt s = d) (List.map_filter ?g fs)) =
        filter (\<lambda>f. \<exists>s. getSessionSummary P dir f = Inr (Some s) \<and> createdAt s = d) fs" for fs
  proof (induction fs)
    case Nil
    show ?case by (simp add: List.map_filter_simps)
  next
    case (Cons f fs)
    show ?case
    proof (cases "?g f")
      case None
      then have "\<not> (\<exists>s. getSessionSummary P dir f = Inr (Some s))"
        using g [of f] by auto
      then show ?thesis using None Cons.IH by (simp add: List.map_filter_simps)
    next
      case (Some s)
      then have s: "getSessionSummary P dir f = Inr (Some s)" using g by simp
      then have "id' s = f" by (rule getSessionSummary_id)
      then show ?thesis using Some s Cons.IH by (simp add: List.map_filter_simps)
    qed
  qed
  then have "map id' (filter (\<lambda>s. createdAt s = d) out) =
       filter (\<lambda>f. \<exists>s. getSessionSummary P dir f = Inr (Some s) \<and> createdAt s = d) folders"
    by (simp add: out ss sortBy_stable)
  then show ?thesis by (simp add: byDateDescending_def)
qed


theorem equal_dates_keep_enumeration_order_witness:
  "existsSync (mounted diskSameDate parseSample) (js ''/w'') \<and>
   readdir (mounted diskSameDate parseSample) (js ''/w'') =
     Inr [js ''ANL-a-2026-01-01'', js ''ANL-c-2026-02-15'', js ''ANL-b-2026-01-01''] \<and>
   listSessions (mounted diskSameDate parseSample) (js ''/w'') =
     Inr (Response 200 (SuccessList
       [inProgress (js ''ANL-c-2026-02-15'') (js ''c'') (js ''2026-02-15''),
        inProgress (js ''ANL-a-2026-01-01'') (js ''a'') (js ''2026-01-01''),
        inProgress (js ''ANL-b-2026-01-01'') (js ''b'') (js ''2026-01-01'')] 3)) \<and>
   filter (\<lambda>f. \<exists>s. getSessionSummary (mounted diskSameDate parseSample) (js ''/w'') f = Inr (Some s) \<and>
                 createdAt s = js ''2026-01-01'')
     [js ''ANL-a-2026-01-01'', js ''ANL-c-2026-02-15'', js ''ANL-b-2026-01-01''] =
     [js ''ANL-a-2026-01-01'', js ''ANL-b-2026-01-01'']"
proof -
  let ?W = "mounted diskSameDate parseSample"
  have a: "getSessionSummary ?W (js ''/w'') (js ''ANL-a-2026-01-01'') =
      Inr (Some (inProgress (js ''ANL-a-2026-01-01'') (js ''a'') (js ''2026-01-01'')))"
    by (simp add: summary_defs parse_defs diskSameDate_def string_defs)
  have b: "getSessionSummary ?W (js ''/w'') (js ''ANL-b-2026-01-01'') =
      Inr (Some (inProgress (js ''ANL-b-2026-01-01'') (js ''b'') (js ''2026-01-01'')))"
    by (simp add: summary_defs parse_defs diskSameDate_def string_defs)
  have c: "getSessionSummary ?W (js ''/w'') (js ''ANL-c-2026-02-15'') =
      Inr (Some (inProgress (js ''ANL-c-2026-02-15'') (js ''c'') (js ''2026-02-15'')))"
    by (simp add: summary_defs parse_defs diskSameDate_def string_defs)
  have d: "existsSync ?W (js ''/w'')"
    "readdir ?W (js ''/w'') =
       Inr [js ''ANL-a-2026-01-01'', js ''ANL-c-2026-02-15'', js ''ANL-b-2026-01-01'']"
    by (simp_all add: mounted_simps diskSameDate_def string_defs)
  have l: "listSessions ?W (js ''/w'') =
     Inr (Response 200 (SuccessList
       [inProgress (js ''ANL-c-2026-02-15'') (js ''c'') (js ''2026-02-15''),
        inProgress (js ''ANL-a-2026-01-01'') (js ''a'') (js ''2026-01-01''),
        inProgress (js ''ANL-b-2026-01-01'') (js ''b'') (js ''2026-01-01'')] 3))"
  proof -
    have "sortBy byDateDescending
       [inProgress (js ''ANL-a-2026-01-01'') (js ''a'') (js ''2026-01-01''),
        inProgress (js ''ANL-c-2026-02-15'') (js ''c'') (js ''2026-02-15''),
        inProgress (js ''ANL-b-2026-01-01'') (js ''b'') (js ''2026-01-01'')] =
       [inProgress (js ''ANL-c-2026-02-15'') (js ''c'') (js ''2026-02-15''),
        inProgress (js ''ANL-a-2026-01-01'') (js ''a'') (js ''2026-01-01''),
        inProgress (js ''ANL-b-2026-01-01'') (js ''b'') (js ''2026-01-01'')]"
      by (simp add: byDateDescending_def localeCompare_def inProgress_def js_def)
    then show ?thesis by (simp add: listSessions_def d a b c)
  qed
  have "map id' (filter (\<lambda>s. createdAt s = js ''2026-01-01'')
       [inProgress (js ''ANL-c-2026-02-15'') (js ''c'') (js ''2026-02-15''),
        inProgress (js ''ANL-a-2026-01-01'') (js ''a'') (js ''2026-01-01''),
        inProgress (js ''ANL-b-2026-01-01'') (js ''b'') (js ''2026-01-01'')]) =
      [js ''ANL-a-2026-01-01'', js ''ANL-b-2026-01-01'']"
    by (simp add: inProgress_def js_def)
  with equal_dates_keep_enumeration_order [OF d l, of "js ''2026-01-01''"] d l
  show ?thesis by simp
qed

section \<open>Summary and detail of one session\<close>

lemma getSessionSummary_invalid:
  "parseSessionId n = None \<Longrightarrow> getSessionSummary P dir n = Inr None"
  by (simp add: getSessionSummary_def)

lemma getSessionSummary_stat_fails:
  "parseSessionId n = Some i \<Longrightarrow> stat P (join P dir n) = Inl e \<Longrightarrow>
   getSessionSummary P dir n = Inl e"
  by (simp add: getSessionSummary_def)

lemma getSessionSummary_not_directory:
  "parseSessionId n = Some i \<Longrightarrow> stat P (join P dir n) = Inr st \<Longrightarrow> \<not> isDirectory st \<Longrightarrow>
   getSessionSummary P dir n = Inr None"
  by (simp add: getSessionSummary_def)

lemma getSessionSummary_directory:
  assumes "parseSessionId n = Some i" "stat P (join P dir n) = Inr st" "isDirectory st"
    and "readJsonFile P (conclusionsPath P dir n) = Inr c"
  shows "getSessionSummary P dir n =
     Inr (Some \<lparr>id' = n, name = n, topic = deriveTopic c i, createdAt = date i,
                status = (if existsSync P (conclusionsPath P dir n) then completed else in_progress),
                hasConclusions = existsSync P (conclusionsPath P dir n)\<rparr>)"
proof (cases "existsSync P (conclusionsPath P dir n)")
  case True
  then show ?thesis
    using assms by (simp add: getSessionSummary_def conclusionsPath_def Let_def)
next
  case False
  then have "c = JNull" using assms(4) by (simp add: readJsonFile_eq)
  then show ?thesis
    using assms False by (simp add: getSessionSummary_def conclusionsPath_def Let_def)
qed

lemma getSessionDetail_invalid:
  "parseSessionId n = None \<Longrightarrow> getSessionDetail P dir n = Inr None"
  by (simp add: getSessionDetail_def)

lemma getSessionDetail_missing:
  "\<not> existsSync P (join P dir n) \<Longrightarrow> getSessionDetail P dir n = Inr None"
  by (simp add: getSessionDetail_def Let_def split: option.splits)

lemma getSessionDetail_present:
  assumes "parseSessionId n = Some i" "existsSync P (join P dir n)"
    and "readJsonFile P (conclusionsPath P dir n) = Inr c"
  shows "\<exists>t e p. getSessionDetail P dir n =
     Inr (Some \<lparr>id' = n, name = n, topic = deriveTopic c i, createdAt = date i,
                status = (if truthy c then completed else in_progress),
                discussion = t, conclusions = c, explorations = e, perspectives = p\<rparr>)"
proof -
  obtain t where t: "readTextFile P (join P (join P dir n) (js ''discussion.md'')) = Inr t"
    by (simp add: readTextFile_eq)
  obtain e where e: "readJsonFile P (join P (join P dir n) (js ''explorations.json'')) = Inr e"
    by (simp add: readJsonFile_eq)
  obtain p where p: "readJsonFile P (join P (join P dir n) (js ''perspectives.json'')) = Inr p"
    by (simp add: readJsonFile_eq)
  show ?thesis
    using assms t e p by (simp add: getSessionDetail_def conclusionsPath_def Let_def)
qed

lemma readJsonFile_total: "\<exists>c. readJsonFile P p = Inr c"
  by (simp add: readJsonFile_eq)

lemma summary_status:
  "getSessionSummary P dir n = Inr (Some s) \<Longrightarrow>
   (status s = completed \<longleftrightarrow> existsSync P (conclusionsPath P dir n)) \<and>
   hasConclusions s = existsSync P (conclusionsPath P dir n)"
  by (auto simp: getSessionSummary_def conclusionsPath_def Let_def await_Inr
      split: option.splits if_splits)

lemma detail_status:
  assumes "getSessionDetail P dir n = Inr (Some d)"
  shows "readJsonFile P (conclusionsPath P dir n) = Inr (conclusions d)"
    and "status d = completed \<longleftrightarrow> truthy (conclusions d)"
proof -
  obtain i where i: "parseSessionId n = Some i"
    using assms getSessionDetail_invalid [of n P dir] by (cases "parseSessionId n") auto
  have e: "existsSync P (join P dir n)"
    using assms getSessionDetail_missing [of P dir n] by auto
  obtain c where c: "readJsonFile P (conclusionsPath P dir n) = Inr c"
    using readJsonFile_total by blast
  from getSessionDetail_present [OF i e c] assms
  have "conclusions d = c" "status d = (if truthy c then completed else in_progress)"
    by auto
  then show "readJsonFile P (conclusionsPath P dir n) = Inr (conclusions d)"
    and "status d = completed \<longleftrightarrow> truthy (conclusions d)"
    using c by simp_all
qed


lemma try_catch_simps [simp]:
  "try_catch (Inr v) h = Inr v"
  "try_catch (Inl e) h = h e"
  by (simp_all add: try_catch_def)

lemma getSessionSummary_Inl:
  "getSessionSummary P dir f = Inl e \<longleftrightarrow>
     parseSessionId f \<noteq> None \<and> stat P (join P dir f) = Inl e"
proof (cases "parseSessionId f")
  case None
  then show ?thesis by (simp add: getSessionSummary_invalid)
next
  case (Some i)
  show ?thesis
  proof (cases "stat P (join P dir f)")
    case (Inl e')
    then show ?thesis using Some by (simp add: getSessionSummary_stat_fails)
  next
    case (Inr st)
    obtain c where c: "readJsonFile P (conclusionsPath P dir f) = Inr c"
      using readJsonFile_total by blast
    show ?thesis
      using Some Inr getSessionSummary_not_directory [OF Some Inr]
        getSessionSummary_directory [OF Some Inr _ c]
      by (cases "isDirectory st") simp_all
  qed
qed

lemma getSessionSummary_Some:
  "(\<exists>s. getSessionSummary P dir f = Inr (Some s)) \<longleftrightarrow>
     parseSessionId f \<noteq> None \<and> (\<exists>st. stat P (join P dir f) = Inr st \<and> isDirectory st)"
proof (cases "parseSessionId f")
  case None
  then show ?thesis by (simp add: getSessionSummary_invalid)
next
  case (Some i)
  show ?thesis
  proof (cases "stat P (join P dir f)")
    case (Inl e')
    then show ?thesis using Some by (simp add: getSessionSummary_stat_fails)
  next
    case (Inr st)
    obtain c where c: "readJsonFile P (conclusionsPath P dir f) = Inr c"
      using readJsonFile_total by blast
    show ?thesis
      using Some Inr getSessionSummary_not_directory [OF Some Inr]
        getSessionSummary_directory [OF Some Inr _ c]
      by (cases "isDirectory st") simp_all
  qed
qed

lemma collectSessions_total:
  "\<forall>f \<in> set folders. \<forall>e. getSessionSummary P dir f \<noteq> Inl e \<Longrightarrow>
   collectSessions P dir folders acc =
     Inr (acc @ List.map_filter
                  (\<lambda>f. case getSessionSummary P dir f of Inr r \<Rightarrow> r | Inl e \<Rightarrow> None) folders)"
proof (induction folders arbitrary: acc)
  case Nil
  show ?case by (simp add: List.map_filter_simps)
next
  case (Cons f folders)
  then obtain r where r: "getSessionSummary P dir f = Inr r"
    by (cases "getSessionSummary P dir f") auto
  show ?case
    using Cons r by (cases r) (simp_all add: List.map_filter_simps)
qed

lemma collectSessions_first_failure:
  "\<exists>f \<in> set folders. \<exists>e. getSessionSummary P dir f = Inl e \<Longrightarrow>
   \<exists>f \<in> set folders. \<exists>e. getSessionSummary P dir f = Inl e \<and>
      collectSessions P dir folders acc = Inl e"
proof (induction folders arbitrary: acc)
  case Nil
  then show ?case by simp
next
  case (Cons f folders)
  show ?case
  proof (cases "getSessionSummary P dir f")
    case (Inl e)
    then show ?thesis by simp
  next
    case (Inr r)
    then have "\<exists>f \<in> set folders. \<exists>e. getSessionSummary P dir f = Inl e"
      using Cons.prems by auto
    from Cons.IH [OF this, of "case r of None \<Rightarrow> acc | Some s \<Rightarrow> acc @ [s]"] Inr
    show ?thesis by auto
  qed
qed

lemma collected_ids:
  "map id' (List.map_filter
       (\<lambda>f. case getSessionSummary P dir f of Inr r \<Rightarrow> r | Inl e \<Rightarrow> None) folders) =
   filter (\<lambda>f. \<exists>s. getSessionSummary P dir f = Inr (Some s)) folders"
proof (induction folders)
  case Nil
  show ?case by (simp add: List.map_filter_simps)
next
  case (Cons f folders)
  show ?case
  proof (cases "getSessionSummary P dir f")
    case (Inl e)
    then show ?thesis using Cons by (simp add: List.map_filter_simps)
  next
    case (Inr r)
    then show ?thesis
      using Cons getSessionSummary_id [of P dir f] by (cases r) (simp_all add: List.map_filter_simps)
  qed
qed

lemma handleAnalysisRoutes_list:
  "pathname ctx = js ''/api/analysis'' \<Longrightarrow> reqMethod ctx = js ''GET'' \<Longrightarrow>
   resolvePath P (projectPathOf ctx) = Inr base \<Longrightarrow>
   handleAnalysisRoutes P ctx =
     (True, Some (try_catch (listSessions P (analysisDirOf P base)) internalError))"
  by (simp add: handleAnalysisRoutes_def)

lemmas detail_defs =
  mounted_simps getSessionDetail_def readJsonFile_eq readTextFile_eq deriveTopic_def or_js_def
  replaceAll_def Let_def

lemma listRequest_simps:
  "pathname listRequest = js ''/api/analysis''" "reqMethod listRequest = js ''GET''"
  "projectPathOf listRequest = js ''/p''"
  by (simp_all add: listRequest_def projectPathOf_def js_def)

lemma analysisDirOf_mounted:
  "analysisDirOf (mounted disk parse) (js ''/p'') = js ''/p/.workflow/.analysis''"
  by (simp add: analysisDirOf_def mounted_simps js_def)

text \<open>
  Claim C1, at the input where the code departs from it. The folder
  \<open>ANL-x-2026-01-01\<close> holds a conclusions artifact that exists and does not parse.
  The summary derives its status from the existence of the file alone and reports
  \<open>completed\<close>; the detail derives it from the parsed value and reports
  \<open>in_progress\<close>. The claim asks for \<open>in_progress\<close> in both.
\<close>

theorem status_differs_on_unparsable_conclusions:
  "readJsonFile (mounted diskSessions parseSample) (js ''/w/ANL-x-2026-01-01/conclusions.json'') =
     Inr JNull \<and>
   getSessionSummary (mounted diskSessions parseSample) (js ''/w'') (js ''ANL-x-2026-01-01'') =
     Inr (Some \<lparr>id' = js ''ANL-x-2026-01-01'', name = js ''ANL-x-2026-01-01'',
                topic = JStr (js ''x''), createdAt = js ''2026-01-01'',
                status = completed, hasConclusions = True\<rparr>) \<and>
   getSessionDetail (mounted diskSessions parseSample) (js ''/w'') (js ''ANL-x-2026-01-01'') =
     Inr (Some \<lparr>id' = js ''ANL-x-2026-01-01'', name = js ''ANL-x-2026-01-01'',
                topic = JStr (js ''x''), createdAt = js ''2026-01-01'',
                status = in_progress, discussion = None, conclusions = JNull,
                explorations = JNull, perspectives = JNull\<rparr>)"
  by (simp add: summary_defs detail_defs parse_defs parseSample_def diskSessions_def string_defs)

text \<open>
  Claim C2, at the input where the code departs from it. The analysis directory lists
  two folders with session names; \<open>stat\<close> cannot resolve the first (a dangling link,
  or a folder removed after the listing was taken). \<open>getSessionSummary\<close> awaits
  \<open>stat\<close> outside any \<open>try\<close>, so the error leaves the loop and the whole list
  request answers with status 500, although the second folder alone gives a summary.
  The claim asks for a success envelope without the first folder. For the same entry
  \<open>getSessionDetail\<close> returns \<open>null\<close>, the not-found outcome.
\<close>

theorem list_aborted_by_stat_failure:
  "existsSync (mounted diskDangling parseSample) (js ''/p/.workflow/.analysis'') \<and>
   readdir (mounted diskDangling parseSample) (js ''/p/.workflow/.analysis'') =
     Inr [js ''ANL-gone-2026-01-01'', js ''ANL-kept-2026-01-02''] \<and>
   stat (mounted diskDangling parseSample) (js ''/p/.workflow/.analysis/ANL-gone-2026-01-01'') =
     Inl (Error (js ''ENOENT'')) \<and>
   getSessionSummary (mounted diskDangling parseSample) (js ''/p/.workflow/.analysis'')
     (js ''ANL-kept-2026-01-02'') =
     Inr (Some (inProgress (js ''ANL-kept-2026-01-02'') (js ''kept'') (js ''2026-01-02''))) \<and>
   handleAnalysisRoutes (mounted diskDangling parseSample) listRequest =
     (True, Some (Inr (Response 500 (Failure (js ''ENOENT''))))) \<and>
   getSessionDetail (mounted diskDangling parseSample) (js ''/p/.workflow/.analysis'')
     (js ''ANL-gone-2026-01-01'') = Inr None"
proof -
  let ?W = "mounted diskDangling parseSample"
  let ?dir = "js ''/p/.workflow/.analysis''"
  have d: "existsSync ?W ?dir"
    "readdir ?W ?dir = Inr [js ''ANL-gone-2026-01-01'', js ''ANL-kept-2026-01-02'']"
    "stat ?W (js ''/p/.workflow/.analysis/ANL-gone-2026-01-01'') = Inl (Error (js ''ENOENT''))"
    by (simp_all add: mounted_simps diskDangling_def string_defs)
  have g: "getSessionSummary ?W ?dir (js ''ANL-gone-2026-01-01'') = Inl (Error (js ''ENOENT''))"
    by (simp add: summary_defs parse_defs diskDangling_def string_defs)
  have k: "getSessionSummary ?W ?dir (js ''ANL-kept-2026-01-02'') =
     Inr (Some (inProgress (js ''ANL-kept-2026-01-02'') (js ''kept'') (js ''2026-01-02'')))"
    by (simp add: summary_defs parse_defs diskDangling_def string_defs)
  have l: "listSessions ?W ?dir = Inl (Error (js ''ENOENT''))"
    by (simp add: listSessions_def d g)
  have r: "resolvePath ?W (projectPathOf listRequest) = Inr (js ''/p'')"
    by (simp add: mounted_simps listRequest_simps)
  have "handleAnalysisRoutes ?W listRequest =
     (True, Some (Inr (Response 500 (Failure (js ''ENOENT'')))))"
    by (simp add: handleAnalysisRoutes_list [OF listRequest_simps(1,2) r] analysisDirOf_mounted l
        internalError_def)
  moreover have "getSessionDetail ?W ?dir (js ''ANL-gone-2026-01-01'') = Inr None"
    by (simp add: detail_defs parse_defs diskDangling_def string_defs)
  ultimately show ?thesis using d k by blast
qed


text \<open>
  The detail operation by cases: if the identifier is not a session name, or
  \<open>existsSync\<close> finds nothing at the session path, the operation returns \<open>null\<close>
  and the route answers 404; otherwise, whatever kind of entry is at the path, the
  operation returns a detail record and the route answers 200. No error escapes.
\<close>

lemma sessionDetail_cases:
  "(parseSessionId sessionId = None \<or> \<not> existsSync P (join P dir sessionId) \<longrightarrow>
      getSessionDetail P dir sessionId = Inr None \<and>
      sessionDetail P dir sessionId = Inr (Response 404 (Failure (js ''Session not found'')))) \<and>
   (parseSessionId sessionId \<noteq> None \<and> existsSync P (join P dir sessionId) \<longrightarrow>
      (\<exists>d. getSessionDetail P dir sessionId = Inr (Some d) \<and> id' d = sessionId \<and>
           sessionDetail P dir sessionId = Inr (Response 200 (SuccessDetail d))))"
proof (intro conjI impI)
  assume "parseSessionId sessionId = None \<or> \<not> existsSync P (join P dir sessionId)"
  then show "getSessionDetail P dir sessionId = Inr None"
    using getSessionDetail_invalid getSessionDetail_missing by blast
  then show "sessionDetail P dir sessionId = Inr (Response 404 (Failure (js ''Session not found'')))"
    by (simp add: sessionDetail_def)
next
  assume a: "parseSessionId sessionId \<noteq> None \<and> existsSync P (join P dir sessionId)"
  then obtain i where i: "parseSessionId sessionId = Some i" by auto
  obtain c where c: "readJsonFile P (conclusionsPath P dir sessionId) = Inr c"
    using readJsonFile_total by blast
  from getSessionDetail_present [OF i _ c] a obtain d
    where d: "getSessionDetail P dir sessionId = Inr (Some d)" "id' d = sessionId"
    by auto
  then show "\<exists>d. getSessionDetail P dir sessionId = Inr (Some d) \<and> id' d = sessionId \<and>
           sessionDetail P dir sessionId = Inr (Response 200 (SuccessDetail d))"
    by (simp add: sessionDetail_def)
qed

text \<open>
  Claim C4, at the input where the code departs from it. At the session path of
  \<open>ANL-file-2026-01-01\<close> there is a regular file, so no session directory exists.
  \<open>getSessionDetail\<close> tests the path with \<open>existsSync\<close> only, finds the file, and
  returns a detail record with every artifact absent; the route answers 200. The claim
  asks for the not-found outcome. \<open>getSessionSummary\<close> tests \<open>isDirectory\<close> and leaves
  the same entry out of the list.
\<close>

theorem regular_file_served_as_session:
  "stat (mounted diskMixed parseSample) (js ''/p/.workflow/.analysis/ANL-file-2026-01-01'') =
     Inr \<lparr>isDirectory = False\<rparr> \<and>
   getSessionSummary (mounted diskMixed parseSample) (js ''/p/.workflow/.analysis'')
     (js ''ANL-file-2026-01-01'') = Inr None \<and>
   getSessionDetail (mounted diskMixed parseSample) (js ''/p/.workflow/.analysis'')
     (js ''ANL-file-2026-01-01'') =
     Inr (Some \<lparr>id' = js ''ANL-file-2026-01-01'', name = js ''ANL-file-2026-01-01'',
                topic = JStr (js ''file''), createdAt = js ''2026-01-01'',
                status = in_progress, discussion = None, conclusions = JNull,
                explorations = JNull, perspectives = JNull\<rparr>) \<and>
   sessionDetail (mounted diskMixed parseSample) (js ''/p/.workflow/.analysis'')
     (js ''ANL-file-2026-01-01'') =
     Inr (Response 200 (SuccessDetail
       \<lparr>id' = js ''ANL-file-2026-01-01'', name = js ''ANL-file-2026-01-01'',
        topic = JStr (js ''file''), createdAt = js ''2026-01-01'',
        status = in_progress, discussion = None, conclusions = JNull,
        explorations = JNull, perspectives = JNull\<rparr>))"
proof -
  let ?W = "mounted diskMixed parseSample"
  let ?dir = "js ''/p/.workflow/.analysis''"
  let ?n = "js ''ANL-file-2026-01-01''"
  have st: "stat ?W (js ''/p/.workflow/.analysis/ANL-file-2026-01-01'') =
      Inr \<lparr>isDirectory = False\<rparr>"
    by (simp add: mounted_simps diskMixed_def string_defs)
  have su: "getSessionSummary ?W ?dir ?n = Inr None"
    by (simp add: summary_defs parse_defs diskMixed_def string_defs)
  have de: "getSessionDetail ?W ?dir ?n =
     Inr (Some \<lparr>id' = ?n, name = ?n, topic = JStr (js ''file''), createdAt = js ''2026-01-01'',
                status = in_progress, discussion = None, conclusions = JNull,
                explorations = JNull, perspectives = JNull\<rparr>)"
    by (simp add: detail_defs parse_defs diskMixed_def string_defs)
  have "sessionDetail ?W ?dir ?n =
     Inr (Response 200 (SuccessDetail
       \<lparr>id' = ?n, name = ?n, topic = JStr (js ''file''), createdAt = js ''2026-01-01'',
        status = in_progress, discussion = None, conclusions = JNull,
        explorations = JNull, perspectives = JNull\<rparr>))"
    by (simp add: sessionDetail_def de)
  with st su de show ?thesis by blast
qed

text \<open>
  Claim C6 as stated fails: a conclusions artifact that declares the topic \<open>""\<close> has
  the field, yet the derived topic is the slug, in the summary and in the detail.
\<close>

theorem empty_topic_counterexample:
  "readJsonFile (mounted diskSessions parseSample) (js ''/w/ANL-y-2026-01-02/conclusions.json'') =
     Inr (JObj [(js ''topic'', JStr [])]) \<and>
   map_of [(js ''topic'', JStr [])] (js ''topic'') = Some (JStr []) \<and>
   getSessionSummary (mounted diskSessions parseSample) (js ''/w'') (js ''ANL-y-2026-01-02'') =
     Inr (Some \<lparr>id' = js ''ANL-y-2026-01-02'', name = js ''ANL-y-2026-01-02'',
                topic = JStr (js ''y''), createdAt = js ''2026-01-02'',
                status = completed, hasConclusions = True\<rparr>) \<and>
   getSessionDetail (mounted diskSessions parseSample) (js ''/w'') (js ''ANL-y-2026-01-02'') =
     Inr (Some \<lparr>id' = js ''ANL-y-2026-01-02'', name = js ''ANL-y-2026-01-02'',
                topic = JStr (js ''y''), createdAt = js ''2026-01-02'',
                status = completed, discussion = None,
                conclusions = JObj [(js ''topic'', JStr [])],
                explorations = JNull, perspectives = JNull\<rparr>)"
  by (simp add: summary_defs detail_defs parse_defs parseSample_def diskSessions_def string_defs)


text \<open>
  Claim C6, as amended. In the summary and in the detail alike, the derived topic is
  the \<open>topic\<close> entry of the value read from the conclusions artifact when that entry
  exists and is truthy (for a string: not empty), and otherwise the slug with every
  hyphen replaced by a space. For \<open>ANL-my-cool-topic-2026-03-01\<close> without a conclusions
  artifact the topic is \<open>my cool topic\<close>.
\<close>

theorem topic_from_conclusions_or_slug:
  "parseSessionId n = Some i \<Longrightarrow>
   readJsonFile P (join P (join P dir n) (js ''conclusions.json'')) = Inr c \<Longrightarrow>
     (\<forall>s. getSessionSummary P dir n = Inr (Some s) \<longrightarrow>
        topic s = (if truthy (opt_prop c (js ''topic'')) then opt_prop c (js ''topic'')
                   else JStr (replaceAll hyphen space (slug i)))) \<and>
     (\<forall>d. getSessionDetail P dir n = Inr (Some d) \<longrightarrow>
        topic d = (if truthy (opt_prop c (js ''topic'')) then opt_prop c (js ''topic'')
                   else JStr (replaceAll hyphen space (slug i))))"
proof (intro conjI allI impI)
  assume i: "parseSessionId n = Some i"
    and c: "readJsonFile P (join P (join P dir n) (js ''conclusions.json'')) = Inr c"
  {
    fix s assume s: "getSessionSummary P dir n = Inr (Some s)"
    then obtain st where st: "stat P (join P dir n) = Inr st"
      using i getSessionSummary_stat_fails [OF i, of P dir] by (cases "stat P (join P dir n)") auto
    have "isDirectory st"
      using s getSessionSummary_not_directory [OF i st] by auto
    from getSessionSummary_directory [OF i st this] c s
    have "topic s = deriveTopic c i" by (auto simp: conclusionsPath_def)
    then show "topic s = (if truthy (opt_prop c (js ''topic'')) then opt_prop c (js ''topic'')
                   else JStr (replaceAll hyphen space (slug i)))"
      by (simp add: deriveTopic_def or_js_def)
  }
  {
    fix d assume d: "getSessionDetail P dir n = Inr (Some d)"
    have "existsSync P (join P dir n)"
      using d getSessionDetail_missing [of P dir n] by auto
    from getSessionDetail_present [OF i this] c d
    have "topic d = deriveTopic c i" by (auto simp: conclusionsPath_def)
    then show "topic d = (if truthy (opt_prop c (js ''topic'')) then opt_prop c (js ''topic'')
                   else JStr (replaceAll hyphen space (slug i)))"
      by (simp add: deriveTopic_def or_js_def)
  }
qed

theorem topic_from_conclusions_or_slug_witness:
  "parseSessionId (js ''ANL-my-cool-topic-2026-03-01'') =
     Some \<lparr>slug = js ''my-cool-topic'', date = js ''2026-03-01''\<rparr> \<and>
   readJsonFile (mounted diskSessions parseSample)
     (join (mounted diskSessions parseSample)
        (join (mounted diskSessions parseSample) (js ''/w'') (js ''ANL-my-cool-topic-2026-03-01''))
        (js ''conclusions.json'')) = Inr JNull \<and>
   (\<exists>s. getSessionSummary (mounted diskSessions parseSample) (js ''/w'')
          (js ''ANL-my-cool-topic-2026-03-01'') = Inr (Some s) \<and>
        topic s = JStr (js ''my cool topic'')) \<and>
   (\<exists>d. getSessionDetail (mounted diskSessions parseSample) (js ''/w'')
          (js ''ANL-my-cool-topic-2026-03-01'') = Inr (Some d) \<and>
        topic d = JStr (js ''my cool topic'')) \<and>
   (\<exists>s. getSessionSummary (mounted diskSessions parseSample) (js ''/w'')
          (js ''ANL-z-2026-01-03'') = Inr (Some s) \<and>
        topic s = JStr (js ''Cache design''))"
proof -
  let ?W = "mounted diskSessions parseSample"
  let ?n = "js ''ANL-my-cool-topic-2026-03-01''"
  have i: "parseSessionId ?n = Some \<lparr>slug = js ''my-cool-topic'', date = js ''2026-03-01''\<rparr>"
    by (simp add: parse_defs string_defs)
  have c: "readJsonFile ?W (join ?W (join ?W (js ''/w'') ?n) (js ''conclusions.json'')) = Inr JNull"
    by (simp add: mounted_simps readJsonFile_eq diskSessions_def string_defs)
  obtain s where s: "getSessionSummary ?W (js ''/w'') ?n = Inr (Some s)"
    by (simp add: summary_defs parse_defs diskSessions_def string_defs)
  obtain d where d: "getSessionDetail ?W (js ''/w'') ?n = Inr (Some d)"
    by (simp add: detail_defs parse_defs diskSessions_def string_defs)
  have f: "JStr (replaceAll hyphen space (js ''my-cool-topic'')) = JStr (js ''my cool topic'')"
    by (simp add: replaceAll_def string_defs)
  from topic_from_conclusions_or_slug [OF i c] s d f
  have 1: "topic s = JStr (js ''my cool topic'')" "topic d = JStr (js ''my cool topic'')"
    by simp_all
  let ?z = "js ''ANL-z-2026-01-03''"
  have iz: "parseSessionId ?z = Some \<lparr>slug = js ''z'', date = js ''2026-01-03''\<rparr>"
    by (simp add: parse_defs string_defs)
  have cz: "readJsonFile ?W (join ?W (join ?W (js ''/w'') ?z) (js ''conclusions.json'')) =
      Inr (JObj [(js ''topic'', JStr (js ''Cache design''))])"
    by (simp add: mounted_simps readJsonFile_eq parseSample_def diskSessions_def string_defs)
  obtain sz where sz: "getSessionSummary ?W (js ''/w'') ?z = Inr (Some sz)"
    by (simp add: summary_defs parse_defs parseSample_def diskSessions_def string_defs)
  have t: "opt_prop (JObj [(js ''topic'', JStr (js ''Cache design''))]) (js ''topic'') =
      JStr (js ''Cache design'')"
    "js ''Cache design'' \<noteq> []"
    by (simp_all add: js_def)
  from topic_from_conclusions_or_slug [OF iz cz] sz t
  have 2: "topic sz = JStr (js ''Cache design'')" by simp
  from i c s d sz 1 2 show ?thesis by blast
qed

section \<open>Structured data renderer: classification\<close>

text \<open>
  Claim C8. \<open>PrimitiveValue\<close> shows \<open>null\<close> and \<open>undefined\<close> as the explicit empty
  marker, a boolean as a badge of two states, a number as it is, a string that starts
  with \<open>http://\<close> or \<open>https://\<close> as a link, any other string of more than 100 code
  units as a pre-wrapped block, and every remaining string inline. So
  \<open>https://example.com\<close> is a link, 150 times the letter a is a pre-wrapped block, 42
  a number and \<open>null\<close> the empty marker.
\<close>

theorem primitive_classification:
  "PrimitiveValue JNull = NullMarker \<and> PrimitiveValue JUndefined = NullMarker \<and>
   (\<forall>b. PrimitiveValue (JBool b) = BoolBadge b) \<and>
   (\<forall>n. PrimitiveValue (JNum n) = NumberText n) \<and>
   (\<forall>s. startsWith s (js ''http://'') \<or> startsWith s (js ''https://'') \<longrightarrow>
        PrimitiveValue (JStr s) = Link s) \<and>
   (\<forall>s. \<not> startsWith s (js ''http://'') \<and> \<not> startsWith s (js ''https://'') \<and> length s > 100 \<longrightarrow>
        PrimitiveValue (JStr s) = PreWrapped s) \<and>
   (\<forall>s. \<not> startsWith s (js ''http://'') \<and> \<not> startsWith s (js ''https://'') \<and> length s \<le> 100 \<longrightarrow>
        PrimitiveValue (JStr s) = InlineText s)"
  by simp

theorem primitive_classification_witness:
  "startsWith (js ''https://example.com'') (js ''https://'') \<and>
   PrimitiveValue (JStr (js ''https://example.com'')) = Link (js ''https://example.com'') \<and>
   \<not> startsWith (replicate 150 0x61) (js ''http://'') \<and>
   \<not> startsWith (replicate 150 0x61) (js ''https://'') \<and>
   length (replicate 150 (0x61 :: code_unit)) > 100 \<and>
   PrimitiveValue (JStr (replicate 150 0x61)) = PreWrapped (replicate 150 0x61) \<and>
   PrimitiveValue (JNum 42) = NumberText 42 \<and>
   PrimitiveValue JNull = NullMarker \<and>
   PrimitiveValue (JBool True) = BoolBadge True \<and>
   PrimitiveValue (JStr (js ''plain'')) = InlineText (js ''plain'')"
proof -
  have a: "startsWith (js ''https://example.com'') (js ''https://'')"
    by (simp add: startsWith_def js_def)
  have r: "replicate 150 (0x61 :: code_unit) = 0x61 # replicate 149 0x61"
    by (simp add: replicate_Suc [symmetric] del: replicate_Suc)
  have b: "\<not> startsWith (replicate 150 0x61) (js ''http://'')"
    "\<not> startsWith (replicate 150 0x61) (js ''https://'')"
    by (simp_all add: startsWith_def js_def r)
  have c: "length (replicate 150 (0x61 :: code_unit)) > 100" by simp
  have d: "\<not> startsWith (js ''plain'') (js ''http://'')"
    "\<not> startsWith (js ''plain'') (js ''https://'')" "length (js ''plain'') \<le> 100"
    by (simp_all add: startsWith_def js_def)
  from primitive_classification a b c d show ?thesis by blast
qed

lemma isObject_iff: "isObject v \<longleftrightarrow> (\<exists>entries. v = JObj entries)"
  by (cases v) (simp_all add: isObject_def)

lemma arrayCards_array_element:
  "arrayCards U (JArr xs # rest) i = (i + 1, StringOf (JArr xs)) # arrayCards U rest (i + 1)"
  by simp

text \<open>
  Claim C9, at the input where the code departs from it. The array \<open>[[1, 2]]\<close> is not
  an array of primitives, so it is shown as the indexed list; its one element is an
  array, for which \<open>isObject\<close> is false, so the element goes to \<open>PrimitiveValue\<close> and
  is shown as the text \<open>String(value)\<close> instead of recursing into \<open>ArrayView\<close>.
  \<open>CardItem\<close> does send the same array to \<open>ArrayView\<close>. The two examples of the
  claim hold: \<open>[1, 2, 3]\<close> gives badges, two objects give an indexed list of two.
\<close>

theorem nested_array_rendered_as_text:
  "ArrayView upperAscii [JArr [JNum 1, JNum 2]] =
     Collapsible True 1 (Some [(1, StringOf (JArr [JNum 1, JNum 2]))]) \<and>
   CardItem upperAscii (js ''tags'') (JArr [JNum 1, JNum 2]) 0 =
     ArrayField (js ''Tags'') (BadgeRow [JNum 1, JNum 2]) \<and>
   ArrayView upperAscii [JNum 1, JNum 2, JNum 3] = BadgeRow [JNum 1, JNum 2, JNum 3] \<and>
   ArrayView upperAscii [JObj [(js ''a'', JNum 1)], JObj [(js ''a'', JNum 2)]] =
     Collapsible True 2
       (Some [(1, Cards [PrimitiveField (js ''A'') (NumberText 1)]),
              (2, Cards [PrimitiveField (js ''A'') (NumberText 2)])])"
  by (simp add: formatLabel_def replaceAll_def trim_def isUpperAZ_def isWhiteSpace_def
      isLineTerminator_def space_def js_def upperAscii_def)


end
